theory Spec2Isabelle
  imports Complex_Main "HOL-Library.Log_Nat" "HOL-Library.Multiset"
begin

section \<open>JavaScript numbers\<close>

text \<open>
  A JavaScript number is an IEEE 754 binary64 value: \<open>NaN\<close>, one of the two
  infinities, or a finite value, which is a rational number. Arithmetic on finite
  values computes the exact rational result and rounds it to the nearest binary64
  value, ties to the even significand, overflowing to an infinity
  (\<open>round_double\<close>). The two zeros \<open>+0\<close> and \<open>-0\<close> are
  identified, as \<^verbatim>\<open>===\<close>, \<^verbatim>\<open><\<close> and \<^verbatim>\<open><=\<close> identify them.
\<close>

datatype jsnum = NaN | NegInf | Fin rat | PosInf

definition round_half_even :: "rat \<Rightarrow> int" where
  "round_half_even r =
     (let f = \<lfloor>r\<rfloor>; d = r - of_int f
      in if d < 1/2 then f else if 1/2 < d then f + 1 else if even f then f else f + 1)"

text \<open>
  Every finite binary64 value is an integer multiple of \<open>2 ^ -1074\<close>. For a
  magnitude scaled by \<open>2 ^ 1074\<close>, \<open>ulp_exp\<close> is the exponent of the spacing of
  the binary64 values around it: the spacing is \<open>1\<close> below \<open>2 ^ 53\<close> (subnormal
  numbers and the first binade) and doubles with every further binade, so that the
  significand keeps 53 bits.
\<close>

definition ulp_exp :: "rat \<Rightarrow> nat" where
  "ulp_exp s = nat (bitlen \<lfloor>s\<rfloor> - 53)"

definition round_mag :: "rat \<Rightarrow> rat" where
  "round_mag a =
     (let s = a * 2 ^ 1074;
          e = ulp_exp s;
          m = round_half_even (s / 2 ^ e)
      in of_int (m * 2 ^ e) / 2 ^ 1074)"

definition round_double :: "rat \<Rightarrow> jsnum" where
  "round_double q =
     (let r = round_mag \<bar>q\<bar>
      in if 2 ^ 1024 \<le> r then (if q < 0 then NegInf else PosInf)
         else Fin (if q < 0 then - r else r))"

text \<open>The rationals that are binary64 values are those that rounding leaves alone.\<close>

definition is_double :: "rat \<Rightarrow> bool" where
  "is_double q \<longleftrightarrow> round_double q = Fin q"

fun js_neg :: "jsnum \<Rightarrow> jsnum" where
  "js_neg NaN = NaN"
| "js_neg NegInf = PosInf"
| "js_neg PosInf = NegInf"
| "js_neg (Fin a) = Fin (- a)"

fun js_add :: "jsnum \<Rightarrow> jsnum \<Rightarrow> jsnum" where
  "js_add NaN _ = NaN"
| "js_add _ NaN = NaN"
| "js_add (Fin a) (Fin b) = round_double (a + b)"
| "js_add PosInf NegInf = NaN"
| "js_add NegInf PosInf = NaN"
| "js_add PosInf _ = PosInf"
| "js_add _ PosInf = PosInf"
| "js_add NegInf _ = NegInf"
| "js_add _ NegInf = NegInf"

definition js_sub :: "jsnum \<Rightarrow> jsnum \<Rightarrow> jsnum" where
  "js_sub a b = js_add a (js_neg b)"

fun js_mul :: "jsnum \<Rightarrow> jsnum \<Rightarrow> jsnum" where
  "js_mul NaN _ = NaN"
| "js_mul _ NaN = NaN"
| "js_mul (Fin a) (Fin b) = round_double (a * b)"
| "js_mul (Fin a) PosInf = (if a = 0 then NaN else if 0 < a then PosInf else NegInf)"
| "js_mul (Fin a) NegInf = (if a = 0 then NaN else if 0 < a then NegInf else PosInf)"
| "js_mul PosInf (Fin b) = (if b = 0 then NaN else if 0 < b then PosInf else NegInf)"
| "js_mul NegInf (Fin b) = (if b = 0 then NaN else if 0 < b then NegInf else PosInf)"
| "js_mul PosInf PosInf = PosInf"
| "js_mul NegInf NegInf = PosInf"
| "js_mul PosInf NegInf = NegInf"
| "js_mul NegInf PosInf = NegInf"

text \<open>\<^verbatim>\<open>a < b\<close> on numbers: false as soon as one side is \<open>NaN\<close>.\<close>

fun js_lt :: "jsnum \<Rightarrow> jsnum \<Rightarrow> bool" where
  "js_lt NaN _ = False"
| "js_lt _ NaN = False"
| "js_lt (Fin a) (Fin b) = (a < b)"
| "js_lt _ NegInf = False"
| "js_lt NegInf _ = True"
| "js_lt PosInf _ = False"
| "js_lt _ PosInf = True"

text \<open>\<^verbatim>\<open>a <= b\<close> is \<^verbatim>\<open>!(b < a)\<close> unless one side is \<open>NaN\<close>, when it is false.\<close>

definition js_le :: "jsnum \<Rightarrow> jsnum \<Rightarrow> bool" where
  "js_le a b \<longleftrightarrow> a \<noteq> NaN \<and> b \<noteq> NaN \<and> \<not> js_lt b a"

fun isFinite :: "jsnum \<Rightarrow> bool" where
  "isFinite (Fin _) = True"
| "isFinite _ = False"

text \<open>
  \<^verbatim>\<open>Math.min(...coerced)\<close>: starting from \<open>+Infinity\<close>, the loop of the language
  specification returns \<open>NaN\<close> at the first \<open>NaN\<close> and otherwise keeps the lowest
  number seen. \<^verbatim>\<open>Math.max\<close> is its mirror image, starting from \<open>-Infinity\<close>.
  The limit an engine puts on the number of arguments of one call is not modelled.
\<close>

fun math_min_loop :: "jsnum list \<Rightarrow> jsnum \<Rightarrow> jsnum" where
  "math_min_loop [] lowest = lowest"
| "math_min_loop (number # rest) lowest =
     (if number = NaN then NaN
      else math_min_loop rest (if js_lt number lowest then number else lowest))"

definition Math_min :: "jsnum list \<Rightarrow> jsnum" where
  "Math_min coerced = math_min_loop coerced PosInf"

fun math_max_loop :: "jsnum list \<Rightarrow> jsnum \<Rightarrow> jsnum" where
  "math_max_loop [] highest = highest"
| "math_max_loop (number # rest) highest =
     (if number = NaN then NaN
      else math_max_loop rest (if js_lt highest number then number else highest))"

definition Math_max :: "jsnum list \<Rightarrow> jsnum" where
  "Math_max coerced = math_max_loop coerced NegInf"

section \<open>Values, objects and the host\<close>

text \<open>
  The values a property of a canvas node can hold. A missing property reads as
  \<open>Undefined\<close>. Strings and objects are left out: like the other values that are
  not numbers they fail the \<^verbatim>\<open>typeof\<close> test of \<open>isValidNode\<close>.
\<close>

datatype jsval = Undefined | Null | Boolean bool | Number jsnum

fun typeof :: "jsval \<Rightarrow> string" where
  "typeof Undefined = ''undefined''"
| "typeof Null = ''object''"
| "typeof (Boolean _) = ''boolean''"
| "typeof (Number _) = ''number''"

fun ToNumber :: "jsval \<Rightarrow> jsnum" where
  "ToNumber Undefined = NaN"
| "ToNumber Null = Fin 0"
| "ToNumber (Boolean b) = Fin (if b then 1 else 0)"
| "ToNumber (Number n) = n"

text \<open>\<^verbatim>\<open>a > b\<close> and \<^verbatim>\<open>a + b\<close> on these values convert both sides to numbers.\<close>

definition js_greater :: "jsval \<Rightarrow> jsval \<Rightarrow> bool" where
  "js_greater a b = js_lt (ToNumber b) (ToNumber a)"

definition js_plus :: "jsval \<Rightarrow> jsval \<Rightarrow> jsnum" where
  "js_plus a b = js_add (ToNumber a) (ToNumber b)"

text \<open>
  What a \<^verbatim>\<open>throw\<close> can carry: an error object with its message, \<^verbatim>\<open>null\<close> or
  \<^verbatim>\<open>undefined\<close>, or any other value (whose \<^verbatim>\<open>message\<close> property reads as
  \<^verbatim>\<open>undefined\<close>).
\<close>

datatype thrown = ErrorObject string | NullishValue | OtherValue

definition TypeError :: thrown where
  "TypeError = ErrorObject ''Cannot read properties of undefined''"

record canvas_node =
  node_x :: jsval
  node_y :: jsval
  node_width :: jsval
  node_height :: jsval

text \<open>
  An object of the host is a node with the four properties as data, or an object
  whose property reads throw (a getter or proxy of the host that fails).
\<close>

datatype jsobject = NodeObject canvas_node | ThrowingObject thrown

type_synonym ref = nat

text \<open>
  The selection of the canvas: a \<^verbatim>\<open>Set\<close> of references (or \<^verbatim>\<open>null\<close>s), in
  iteration order, or a collection reporting a size whose iteration throws.
\<close>

datatype selection_set = SetOf "ref option list" | FaultySet nat thrown

fun size_of :: "selection_set \<Rightarrow> nat" where
  "size_of (SetOf items) = length items"
| "size_of (FaultySet n _) = n"

fun Array_from :: "selection_set \<Rightarrow> thrown + ref option list" where
  "Array_from (SetOf items) = Inr items"
| "Array_from (FaultySet _ e) = Inl e"

record bounds =
  minX :: jsnum
  minY :: jsnum
  maxX :: jsnum
  maxY :: jsnum

record group_spec =
  pos_x :: jsnum
  pos_y :: jsnum
  size_width :: jsnum
  size_height :: jsnum
  label :: string

text \<open>What the plugin does to the outside, in order.\<close>

datatype event =
    Notice string
  | ConsoleLog string "thrown option"
  | ConsoleError string thrown
  | CreateGroupNode group_spec
  | RequestSave

text \<open>
  The state the plugin runs in: the objects of the host by reference (a reference
  that is not bound is an object with none of the four properties), the selection
  of the canvas (\<open>None\<close> when \<^verbatim>\<open>canvas.selection\<close> is \<^verbatim>\<open>null\<close> or
  \<^verbatim>\<open>undefined\<close>), and the events emitted so far.
\<close>

record world =
  objects :: "ref \<rightharpoonup> jsobject"
  canvas_selection :: "selection_set option"
  trace :: "event list"

record settings =
  padding :: jsnum
  defaultLabel :: string
  showNotices :: bool
  debugMode :: bool

definition DEFAULT_SETTINGS :: settings where
  "DEFAULT_SETTINGS =
     \<lparr>padding = Fin 20, defaultLabel = '''', showNotices = True, debugMode = False\<rparr>"

text \<open>A method of the host: absent, returning, or throwing.\<close>

datatype host_fn = NotAFunction | Returns | Throws thrown

record canvas =
  createGroupNode :: host_fn
  requestSave :: host_fn

datatype canvas_view = View "canvas option"

text \<open>
  \<^verbatim>\<open>app.workspace.getLeavesOfType("canvas")\<close> throws, returns \<^verbatim>\<open>null\<close>, or returns the
  leaves; a leaf is given by its view, \<open>None\<close> for a leaf that is \<^verbatim>\<open>null\<close> or has no
  view.
\<close>

record app =
  getLeavesOfType :: "thrown + canvas_view option list option"

section \<open>The plugin\<close>

definition emit :: "event \<Rightarrow> world \<Rightarrow> world" where
  "emit ev w = w\<lparr>trace := trace w @ [ev]\<rparr>"

definition showNotice :: "settings \<Rightarrow> string \<Rightarrow> world \<Rightarrow> world" where
  "showNotice s message w = (if showNotices s then emit (Notice message) w else w)"

definition log_debug :: "settings \<Rightarrow> string \<Rightarrow> thrown option \<Rightarrow> world \<Rightarrow> world" where
  "log_debug s message data w =
     (if debugMode s then emit (ConsoleLog (''[Canvas Hotkey Helper] '' @ message) data) w
      else w)"

fun message_of :: "thrown \<Rightarrow> string" where
  "message_of (ErrorObject m) = m"
| "message_of _ = ''undefined''"

text \<open>
  \<open>handleError\<close> reads \<^verbatim>\<open>error.message\<close> first: on \<^verbatim>\<open>null\<close> or \<^verbatim>\<open>undefined\<close>
  that read throws a \<^verbatim>\<open>TypeError\<close> before anything is reported.
\<close>

definition handleError :: "settings \<Rightarrow> string \<Rightarrow> thrown \<Rightarrow> world \<Rightarrow> (thrown + unit) \<times> world" where
  "handleError s context error w =
     (if error = NullishValue then (Inl TypeError, w)
      else
        let errorMessage = context @ '': '' @ message_of error
        in (Inr (),
            showNotice s errorMessage
              (emit (ConsoleError (''[Canvas Hotkey Helper] '' @ errorMessage) error) w)))"

text \<open>Reading the properties of the object behind a reference.\<close>

definition get_properties :: "world \<Rightarrow> ref \<Rightarrow> thrown + canvas_node" where
  "get_properties w r =
     (case objects w r of
        None \<Rightarrow> Inr \<lparr>node_x = Undefined, node_y = Undefined,
                     node_width = Undefined, node_height = Undefined\<rparr>
      | Some (NodeObject n) \<Rightarrow> Inr n
      | Some (ThrowingObject e) \<Rightarrow> Inl e)"

definition isValidNode :: "ref option \<Rightarrow> world \<Rightarrow> (thrown + bool) \<times> world" where
  "isValidNode node w =
     (case node of
        None \<Rightarrow> (Inr False, w)
      | Some r \<Rightarrow>
          (case get_properties w r of
             Inl e \<Rightarrow> (Inl e, w)
           | Inr n \<Rightarrow>
               (let hasPosition =
                      (typeof (node_x n) = ''number'' \<and> typeof (node_y n) = ''number'');
                    hasDimensions =
                      (typeof (node_width n) = ''number'' \<and> typeof (node_height n) = ''number'');
                    hasValidDimensions =
                      (js_greater (node_width n) (Number (Fin 0)) \<and>
                       js_greater (node_height n) (Number (Fin 0)))
                in (Inr (hasPosition \<and> hasDimensions \<and> hasValidDimensions), w))))"

text \<open>\<^verbatim>\<open>nodes.filter(node => this.isValidNode(node))\<close>, stopping at the first throw.\<close>

fun filter_isValidNode :: "ref option list \<Rightarrow> world \<Rightarrow> (thrown + ref option list) \<times> world" where
  "filter_isValidNode [] w = (Inr [], w)"
| "filter_isValidNode (node # nodes) w =
     (case isValidNode node w of
        (Inl e, w') \<Rightarrow> (Inl e, w')
      | (Inr keep, w') \<Rightarrow>
          (case filter_isValidNode nodes w' of
             (Inl e, w'') \<Rightarrow> (Inl e, w'')
           | (Inr kept, w'') \<Rightarrow> (Inr (if keep then node # kept else kept), w'')))"

text \<open>
  \<^verbatim>\<open>validNodes.map(n => f(n))\<close> for an \<open>f\<close> that reads properties of \<open>n\<close>: reading a
  property of \<^verbatim>\<open>null\<close> throws a \<^verbatim>\<open>TypeError\<close>.
\<close>

fun map_nodes :: "(canvas_node \<Rightarrow> 'a) \<Rightarrow> ref option list \<Rightarrow> world \<Rightarrow> thrown + 'a list" where
  "map_nodes f [] w = Inr []"
| "map_nodes f (n # ns) w =
     (case (case n of None \<Rightarrow> Inl TypeError | Some r \<Rightarrow> get_properties w r) of
        Inl e \<Rightarrow> Inl e
      | Inr props \<Rightarrow>
          (case map_nodes f ns w of
             Inl e \<Rightarrow> Inl e
           | Inr vs \<Rightarrow> Inr (f props # vs)))"

text \<open>The \<^verbatim>\<open>try\<close> block of \<open>calculateBoundingBox\<close>.\<close>

definition calculateBoundingBox_try ::
  "ref option list \<Rightarrow> world \<Rightarrow> (thrown + bounds option) \<times> world" where
  "calculateBoundingBox_try nodes w =
     (if nodes = [] then (Inr None, w)
      else
        case filter_isValidNode nodes w of
          (Inl e, w') \<Rightarrow> (Inl e, w')
        | (Inr validNodes, w') \<Rightarrow>
            if length validNodes = 0 then (Inr None, w')
            else
              (case map_nodes (\<lambda>n. ToNumber (node_x n)) validNodes w' of
                 Inl e \<Rightarrow> (Inl e, w')
               | Inr xs \<Rightarrow>
              (case map_nodes (\<lambda>n. ToNumber (node_y n)) validNodes w' of
                 Inl e \<Rightarrow> (Inl e, w')
               | Inr ys \<Rightarrow>
              (case map_nodes (\<lambda>n. js_plus (node_x n) (node_width n)) validNodes w' of
                 Inl e \<Rightarrow> (Inl e, w')
               | Inr rights \<Rightarrow>
              (case map_nodes (\<lambda>n. js_plus (node_y n) (node_height n)) validNodes w' of
                 Inl e \<Rightarrow> (Inl e, w')
               | Inr bottoms \<Rightarrow>
                   (let minX = Math_min xs;
                        minY = Math_min ys;
                        maxX = Math_max rights;
                        maxY = Math_max bottoms
                    in if \<not> isFinite minX \<or> \<not> isFinite minY \<or>
                          \<not> isFinite maxX \<or> \<not> isFinite maxY
                       then (Inr None, w')
                       else (Inr (Some \<lparr>minX = minX, minY = minY,
                                         maxX = maxX, maxY = maxY\<rparr>), w')))))))"

definition calculateBoundingBox ::
  "settings \<Rightarrow> ref option list \<Rightarrow> world \<Rightarrow> bounds option \<times> world" where
  "calculateBoundingBox s nodes w =
     (case calculateBoundingBox_try nodes w of
        (Inr result, w') \<Rightarrow> (result, w')
      | (Inl error, w') \<Rightarrow> (None, log_debug s ''Error calculating bounding box'' (Some error) w'))"

text \<open>Decimal digits of a length, for the template strings of the notices.\<close>

fun string_of_nat :: "nat \<Rightarrow> string" where
  "string_of_nat n =
     (if n < 10 then [''0123456789'' ! n]
      else string_of_nat (n div 10) @ [''0123456789'' ! (n mod 10)])"

declare string_of_nat.simps [simp del]

text \<open>
  The dimensions of the group, as \<open>createGroupFromSelection\<close> computes them from the
  bounds and the padding of the settings.
\<close>

definition group_width :: "bounds \<Rightarrow> jsnum \<Rightarrow> jsnum" where
  "group_width bounds pad = js_add (js_sub (maxX bounds) (minX bounds)) (js_mul pad (Fin 2))"

definition group_height :: "bounds \<Rightarrow> jsnum \<Rightarrow> jsnum" where
  "group_height bounds pad = js_add (js_sub (maxY bounds) (minY bounds)) (js_mul pad (Fin 2))"

text \<open>
  The end of \<open>createGroupFromSelection\<close>, from reading the padding to the last
  message: the dimensions of the group, their check, the creation of the group, the
  save request and the success notice. Calling \<^verbatim>\<open>createGroupNode\<close> when it is not a
  function would throw a \<^verbatim>\<open>TypeError\<close>; the caller has excluded that case before.
\<close>

definition create_group ::
  "settings \<Rightarrow> canvas \<Rightarrow> ref option list \<Rightarrow> bounds \<Rightarrow> world \<Rightarrow> (thrown + unit) \<times> world" where
  "create_group s canvas validNodes bounds w =
     (let pad = padding s;
          width = group_width bounds pad;
          height = group_height bounds pad
      in if js_le width (Fin 0) \<or> js_le height (Fin 0)
         then (Inr (), showNotice s ''Invalid group dimensions calculated'' w)
         else
           (case createGroupNode canvas of
              NotAFunction \<Rightarrow> (Inl TypeError, w)
            | Throws e \<Rightarrow> (Inl e, w)
            | Returns \<Rightarrow>
                (let w1 = emit (CreateGroupNode
                                 \<lparr>pos_x = js_sub (minX bounds) pad,
                                  pos_y = js_sub (minY bounds) pad,
                                  size_width = width,
                                  size_height = height,
                                  label = defaultLabel s\<rparr>) w;
                     count = string_of_nat (length validNodes);
                     finish = (\<lambda>w2. (Inr (),
                               log_debug s (''Successfully created group with '' @ count @ '' nodes'') None
                                 (showNotice s (''Group created with '' @ count @ '' node(s)'') w2)))
                 in case requestSave canvas of
                      NotAFunction \<Rightarrow> finish w1
                    | Returns \<Rightarrow> finish (emit RequestSave w1)
                    | Throws e \<Rightarrow> (Inl e, w1))))"

text \<open>The \<^verbatim>\<open>try\<close> block of \<open>createGroupFromSelection\<close>.\<close>

definition createGroupFromSelection_try ::
  "settings \<Rightarrow> canvas_view option \<Rightarrow> world \<Rightarrow> (thrown + unit) \<times> world" where
  "createGroupFromSelection_try s canvasView w =
     (case canvasView of
        None \<Rightarrow> (Inr (), showNotice s ''No active canvas found'' w)
      | Some (View None) \<Rightarrow> (Inr (), showNotice s ''Canvas object not available'' w)
      | Some (View (Some canvas)) \<Rightarrow>
          if createGroupNode canvas = NotAFunction
          then (Inr (),
                log_debug s ''createGroupNode method not found on canvas object'' None
                  (showNotice s ''Canvas grouping API not available. Please update Obsidian.'' w))
          else
            (case canvas_selection w of
               None \<Rightarrow> (Inr (), showNotice s ''No selection available'' w)
             | Some selection \<Rightarrow>
                 if size_of selection < 2
                 then (Inr (), showNotice s ''Please select at least 2 items to create a group'' w)
                 else
                   (case Array_from selection of
                      Inl e \<Rightarrow> (Inl e, w)
                    | Inr nodes \<Rightarrow>
                        (case filter_isValidNode nodes w of
                           (Inl e, w1) \<Rightarrow> (Inl e, w1)
                         | (Inr validNodes, w1) \<Rightarrow>
                             if length validNodes = 0
                             then (Inr (),
                                   showNotice s ''Selected items are not valid canvas nodes'' w1)
                             else if length validNodes < 2
                             then (Inr (),
                                   showNotice s
                                     (''Only '' @ string_of_nat (length validNodes) @
                                      '' valid node(s) selected. Need at least 2.'') w1)
                             else
                               (case calculateBoundingBox s validNodes w1 of
                                  (None, w2) \<Rightarrow>
                                    (Inr (),
                                     showNotice s
                                       ''Unable to calculate bounds for selected nodes'' w2)
                                | (Some bounds, w2) \<Rightarrow>
                                    create_group s canvas validNodes bounds w2)))))"

definition createGroupFromSelection ::
  "settings \<Rightarrow> canvas_view option \<Rightarrow> world \<Rightarrow> (thrown + unit) \<times> world" where
  "createGroupFromSelection s canvasView w =
     (case createGroupFromSelection_try s canvasView w of
        (Inr u, w') \<Rightarrow> (Inr u, w')
      | (Inl error, w') \<Rightarrow> handleError s ''Failed to create group from selection'' error w')"

definition getActiveCanvasView ::
  "settings \<Rightarrow> app \<Rightarrow> world \<Rightarrow> canvas_view option \<times> world" where
  "getActiveCanvasView s a w =
     (case getLeavesOfType a of
        Inl error \<Rightarrow> (None, log_debug s ''Error getting active canvas view'' (Some error) w)
      | Inr None \<Rightarrow> (None, w)
      | Inr (Some canvasLeaves) \<Rightarrow>
          if length canvasLeaves = 0 then (None, w)
          else
            (case find (\<lambda>leaf. leaf \<noteq> None) canvasLeaves of
               None \<Rightarrow> (None, w)
             | Some canvasLeaf \<Rightarrow> (canvasLeaf, w)))"

text \<open>The \<^verbatim>\<open>checkCallback\<close> of the command registered by \<open>onload\<close>.\<close>

definition checkCallback ::
  "settings \<Rightarrow> app \<Rightarrow> bool \<Rightarrow> world \<Rightarrow> (thrown + bool) \<times> world" where
  "checkCallback s a checking w =
     (let attempt =
            (case getActiveCanvasView s a w of
               (canvasView, w1) \<Rightarrow>
                 if checking then (Inr (canvasView \<noteq> None), w1)
                 else
                   (case createGroupFromSelection s canvasView w1 of
                      (Inl e, w2) \<Rightarrow> (Inl e, w2)
                    | (Inr _, w2) \<Rightarrow> (Inr True, w2)))
      in case attempt of
           (Inr b, w') \<Rightarrow> (Inr b, w')
         | (Inl error, w') \<Rightarrow>
             (case handleError s ''Command execution failed'' error w' of
                (Inl e, w'') \<Rightarrow> (Inl e, w'')
              | (Inr _, w'') \<Rightarrow> (Inr False, w'')))"

section \<open>Notions used to state the properties\<close>

text \<open>
  The properties of a node as the plugin reads them, all \<open>Undefined\<close> for
  \<^verbatim>\<open>null\<close> and for an object whose reads throw.
\<close>

definition no_properties :: canvas_node where
  "no_properties =
     \<lparr>node_x = Undefined, node_y = Undefined, node_width = Undefined, node_height = Undefined\<rparr>"

definition props_of :: "world \<Rightarrow> ref option \<Rightarrow> canvas_node" where
  "props_of w node =
     (case node of
        None \<Rightarrow> no_properties
      | Some r \<Rightarrow> (case get_properties w r of Inl _ \<Rightarrow> no_properties | Inr n \<Rightarrow> n))"

text \<open>A node whose property reads do not throw.\<close>

definition readable :: "world \<Rightarrow> ref option \<Rightarrow> bool" where
  "readable w node =
     (case node of
        None \<Rightarrow> True
      | Some r \<Rightarrow> (case get_properties w r of Inl _ \<Rightarrow> False | Inr _ \<Rightarrow> True))"

text \<open>The verdict of \<open>isValidNode\<close> as a predicate.\<close>

definition valid :: "world \<Rightarrow> ref option \<Rightarrow> bool" where
  "valid w node \<longleftrightarrow> fst (isValidNode node w) = Inr True"

text \<open>
  Validity in the words of the specification: the node is not \<^verbatim>\<open>null\<close> and its
  \<open>x\<close>, \<open>y\<close>, \<open>width\<close> and \<open>height\<close> are finite numbers with
  \<open>width > 0\<close> and \<open>height > 0\<close>.
\<close>

fun finite_number :: "jsval \<Rightarrow> bool" where
  "finite_number (Number (Fin _)) = True"
| "finite_number _ = False"

definition validateNode_spec :: "world \<Rightarrow> ref option \<Rightarrow> bool" where
  "validateNode_spec w node =
     (case node of
        None \<Rightarrow> False
      | Some r \<Rightarrow>
          (case get_properties w r of
             Inl _ \<Rightarrow> False
           | Inr n \<Rightarrow>
               finite_number (node_x n) \<and> finite_number (node_y n) \<and>
               finite_number (node_width n) \<and> finite_number (node_height n) \<and>
               js_greater (node_width n) (Number (Fin 0)) \<and>
               js_greater (node_height n) (Number (Fin 0))))"

text \<open>Writing down inputs: a node with four numbers, and a world with no events yet.\<close>

definition number_node :: "jsnum \<Rightarrow> jsnum \<Rightarrow> jsnum \<Rightarrow> jsnum \<Rightarrow> canvas_node" where
  "number_node x y wd ht =
     \<lparr>node_x = Number x, node_y = Number y, node_width = Number wd, node_height = Number ht\<rparr>"

definition world_with :: "(ref \<rightharpoonup> jsobject) \<Rightarrow> selection_set option \<Rightarrow> world" where
  "world_with objs sel = \<lparr>objects = objs, canvas_selection = sel, trace = []\<rparr>"

text \<open>
  The three nodes of the end-to-end example of the specification, \<open>(0, 0, 50, 50)\<close>,
  \<open>(100, 0, 50, 50)\<close> and \<open>(0, 100, 50, 50)\<close>, all selected.
\<close>

definition three_nodes :: world where
  "three_nodes =
     world_with
       [0 \<mapsto> NodeObject (number_node (Fin 0) (Fin 0) (Fin 50) (Fin 50)),
        1 \<mapsto> NodeObject (number_node (Fin 100) (Fin 0) (Fin 50) (Fin 50)),
        2 \<mapsto> NodeObject (number_node (Fin 0) (Fin 100) (Fin 50) (Fin 50))]
       (Some (SetOf [Some 0, Some 1, Some 2]))"


text \<open>
  Two selected nodes of width \<open>1\<close> at \<open>x = 2 ^ 53\<close>, where the binary64 values are
  \<open>2\<close> apart.
\<close>

definition far_nodes :: world where
  "far_nodes =
     world_with
       [0 \<mapsto> NodeObject (number_node (Fin (2 ^ 53)) (Fin 0) (Fin 1) (Fin 1)),
        1 \<mapsto> NodeObject (number_node (Fin (2 ^ 53)) (Fin 10) (Fin 1) (Fin 1))]
       (Some (SetOf [Some 0, Some 1]))"

text \<open>
  A selection of a single object whose property reads throw, and a selection of a
  valid node and a node of width zero.
\<close>

definition one_throwing :: world where
  "one_throwing =
     world_with [0 \<mapsto> ThrowingObject (ErrorObject ''getter failed'')] (Some (SetOf [Some 0]))"

definition one_valid_one_flat :: world where
  "one_valid_one_flat =
     world_with
       [0 \<mapsto> NodeObject (number_node (Fin 0) (Fin 0) (Fin 50) (Fin 50)),
        1 \<mapsto> NodeObject (number_node (Fin 100) (Fin 0) (Fin 0) (Fin 50))]
       (Some (SetOf [Some 0, Some 1]))"

text \<open>Two worlds with the same objects and the same selection.\<close>

definition same_store :: "world \<Rightarrow> world \<Rightarrow> bool" where
  "same_store w w' \<longleftrightarrow> objects w' = objects w \<and> canvas_selection w' = canvas_selection w"

text \<open>The world after the host has replaced the properties of the node behind \<open>r\<close>.\<close>

definition set_node :: "ref \<Rightarrow> canvas_node \<Rightarrow> world \<Rightarrow> world" where
  "set_node r n w = w\<lparr>objects := (objects w)(r \<mapsto> NodeObject n)\<rparr>"

text \<open>The numbers stored in a node are binary64 values.\<close>

fun double_value :: "jsval \<Rightarrow> bool" where
  "double_value (Number (Fin q)) = is_double q"
| "double_value _ = True"

definition double_node :: "world \<Rightarrow> ref option \<Rightarrow> bool" where
  "double_node w node =
     (let n = props_of w node
      in double_value (node_x n) \<and> double_value (node_y n) \<and>
         double_value (node_width n) \<and> double_value (node_height n))"

section \<open>Rounding to binary64\<close>

lemma round_half_even_of_int [simp]: "round_half_even (of_int n) = n"
  by (simp add: round_half_even_def)

lemma round_half_even_bounds: "\<lfloor>r\<rfloor> \<le> round_half_even r \<and> round_half_even r \<le> \<lfloor>r\<rfloor> + 1"
  by (simp add: round_half_even_def Let_def)

lemma round_half_even_mono:
  assumes "a \<le> b"
  shows "round_half_even a \<le> round_half_even b"
proof (cases "\<lfloor>a\<rfloor> = \<lfloor>b\<rfloor>")
  case True
  with assms have "a - of_int \<lfloor>a\<rfloor> \<le> b - of_int \<lfloor>b\<rfloor>" by simp
  with True show ?thesis
    by (auto simp: round_half_even_def Let_def)
next
  case False
  with assms have "\<lfloor>a\<rfloor> + 1 \<le> \<lfloor>b\<rfloor>"
    using floor_mono [of a b] by linarith
  with round_half_even_bounds [of a] round_half_even_bounds [of b] show ?thesis
    by linarith
qed

lemma round_half_even_ge: "of_int n \<le> r \<Longrightarrow> n \<le> round_half_even r"
  using round_half_even_mono [of "of_int n" r] by simp

lemma round_half_even_le: "r \<le> of_int n \<Longrightarrow> round_half_even r \<le> n"
  using round_half_even_mono [of r "of_int n"] by simp

lemma ulp_exp_upper: "s < 2 ^ (ulp_exp s + 53)"
proof -
  have "bitlen \<lfloor>s\<rfloor> \<le> int (ulp_exp s + 53)"
    by (simp add: ulp_exp_def)
  then have "\<lfloor>s\<rfloor> < 2 ^ (ulp_exp s + 53)"
    unfolding bitlen_le_iff_power nat_int by simp
  then have "s < of_int (2 ^ (ulp_exp s + 53))"
    by (simp only: floor_less_iff)
  then show ?thesis by simp
qed

lemma ulp_exp_lower:
  assumes "0 < ulp_exp s"
  shows "2 ^ (ulp_exp s + 52) \<le> s"
proof -
  from assms have "int (ulp_exp s + 53) \<le> bitlen \<lfloor>s\<rfloor>"
    by (simp add: ulp_exp_def)
  then have "2 ^ (ulp_exp s + 52) \<le> \<lfloor>s\<rfloor>"
    unfolding bitlen_ge_iff_power nat_int by (simp add: add.commute)
  then have "of_int (2 ^ (ulp_exp s + 52)) \<le> s"
    by (simp only: le_floor_iff)
  then show ?thesis by simp
qed

lemma ulp_exp_mono: "s \<le> t \<Longrightarrow> ulp_exp s \<le> ulp_exp t"
  unfolding ulp_exp_def bitlen_def
  by (intro nat_mono diff_right_mono) (simp add: floorlog_mono floor_mono nat_mono)

lemma ulp_exp_eqI:
  assumes up: "s < 2 ^ (e + 53)" and lo: "e = 0 \<or> 2 ^ (e + 52) \<le> s"
  shows "ulp_exp s = e"
proof (rule antisym)
  show "ulp_exp s \<le> e"
  proof (rule ccontr)
    assume "\<not> ulp_exp s \<le> e"
    then have *: "e + 53 \<le> ulp_exp s + 52" and "0 < ulp_exp s" by simp_all
    then have "(2::rat) ^ (ulp_exp s + 52) \<le> s" by (simp add: ulp_exp_lower)
    moreover from * have "(2::rat) ^ (e + 53) \<le> 2 ^ (ulp_exp s + 52)"
      by (intro power_increasing) simp_all
    ultimately show False using up by linarith
  qed
  show "e \<le> ulp_exp s"
  proof (rule ccontr)
    assume neg: "\<not> e \<le> ulp_exp s"
    then have "e \<noteq> 0" by simp
    with lo have "2 ^ (e + 52) \<le> s" by simp
    moreover from neg have "(2::rat) ^ (ulp_exp s + 53) \<le> 2 ^ (e + 52)"
      by (intro power_increasing) simp_all
    ultimately show False using ulp_exp_upper [of s] by linarith
  qed
qed

lemma significand_le:
  "round_half_even (s / 2 ^ ulp_exp s) * 2 ^ ulp_exp s \<le> 2 ^ (ulp_exp s + 53)"
proof -
  have "s / 2 ^ ulp_exp s \<le> of_int (2 ^ 53)"
    using ulp_exp_upper [of s] by (simp add: power_add field_simps)
  then have "round_half_even (s / 2 ^ ulp_exp s) \<le> 2 ^ 53"
    by (rule round_half_even_le)
  then have "round_half_even (s / 2 ^ ulp_exp s) * 2 ^ ulp_exp s \<le> 2 ^ 53 * 2 ^ ulp_exp s"
    by (rule mult_right_mono) simp
  then show ?thesis by (simp add: power_add mult.commute)
qed

lemma significand_ge:
  assumes "0 < ulp_exp s"
  shows "2 ^ (ulp_exp s + 52) \<le> round_half_even (s / 2 ^ ulp_exp s) * 2 ^ ulp_exp s"
proof -
  have "of_int (2 ^ 52) \<le> s / 2 ^ ulp_exp s"
    using ulp_exp_lower [OF assms] by (simp add: power_add field_simps)
  then have "2 ^ 52 \<le> round_half_even (s / 2 ^ ulp_exp s)"
    by (rule round_half_even_ge)
  then have "2 ^ 52 * 2 ^ ulp_exp s \<le> round_half_even (s / 2 ^ ulp_exp s) * 2 ^ ulp_exp s"
    by (rule mult_right_mono) simp
  then show ?thesis by (simp add: power_add mult.commute)
qed

lemma round_mag_mono:
  assumes "a \<le> b"
  shows "round_mag a \<le> round_mag b"
proof -
  define s t where "s = a * 2 ^ 1074" and "t = b * 2 ^ 1074"
  from assms have st: "s \<le> t" by (simp add: s_def t_def)
  then have ef: "ulp_exp s \<le> ulp_exp t" by (rule ulp_exp_mono)
  have "round_half_even (s / 2 ^ ulp_exp s) * 2 ^ ulp_exp s
      \<le> round_half_even (t / 2 ^ ulp_exp t) * 2 ^ ulp_exp t"
  proof (cases "ulp_exp s = ulp_exp t")
    case True
    from st have "s / 2 ^ ulp_exp t \<le> t / 2 ^ ulp_exp t"
      by (simp add: divide_right_mono)
    then have "round_half_even (s / 2 ^ ulp_exp t) \<le> round_half_even (t / 2 ^ ulp_exp t)"
      by (rule round_half_even_mono)
    with True show ?thesis by (simp add: mult_right_mono)
  next
    case False
    with ef have lt: "ulp_exp s + 53 \<le> ulp_exp t + 52" and pos: "0 < ulp_exp t" by simp_all
    have "round_half_even (s / 2 ^ ulp_exp s) * 2 ^ ulp_exp s \<le> 2 ^ (ulp_exp s + 53)"
      by (rule significand_le)
    also from lt have "(2::int) ^ (ulp_exp s + 53) \<le> 2 ^ (ulp_exp t + 52)"
      by (intro power_increasing) simp_all
    also from pos have "\<dots> \<le> round_half_even (t / 2 ^ ulp_exp t) * 2 ^ ulp_exp t"
      by (rule significand_ge)
    finally show ?thesis .
  qed
  then have "(of_int (round_half_even (s / 2 ^ ulp_exp s) * 2 ^ ulp_exp s) :: rat)
      \<le> of_int (round_half_even (t / 2 ^ ulp_exp t) * 2 ^ ulp_exp t)"
    by (simp only: of_int_le_iff)
  then show ?thesis
    unfolding round_mag_def Let_def s_def [symmetric] t_def [symmetric]
    by (rule divide_right_mono) simp
qed

lemma round_mag_0 [simp]: "round_mag 0 = 0"
  by (simp add: round_mag_def round_half_even_def)

lemma round_mag_nonneg: "0 \<le> a \<Longrightarrow> 0 \<le> round_mag a"
  using round_mag_mono [of 0 a] by simp

text \<open>A magnitude whose scaled value is a whole number of spacings is not changed.\<close>

lemma round_mag_exact:
  assumes "a * 2 ^ 1074 / 2 ^ ulp_exp (a * 2 ^ 1074) = of_int m"
  shows "round_mag a = a"
proof -
  have "of_int (m * 2 ^ ulp_exp (a * 2 ^ 1074)) = a * 2 ^ 1074"
    using assms by (simp add: field_simps)
  then show ?thesis
    unfolding round_mag_def Let_def assms round_half_even_of_int by simp
qed

lemma ulp_exp_le:
  assumes "s < 2 ^ (k + 53)"
  shows "ulp_exp s \<le> k"
proof (rule ccontr)
  assume "\<not> ulp_exp s \<le> k"
  then have *: "k + 53 \<le> ulp_exp s + 52" and "0 < ulp_exp s" by simp_all
  then have "(2::rat) ^ (ulp_exp s + 52) \<le> s" by (simp add: ulp_exp_lower)
  moreover from * have "(2::rat) ^ (k + 53) \<le> 2 ^ (ulp_exp s + 52)"
    by (intro power_increasing) simp_all
  ultimately show False using assms by linarith
qed

lemma scale_div:
  fixes a :: rat
  assumes "e \<le> k"
  shows "a * 2 ^ k / 2 ^ e = a * 2 ^ (k - e)"
  using assms by (simp add: power_diff)

lemma round_mag_int:
  assumes "0 \<le> n" "n < 2 ^ 53"
  shows "round_mag (of_int n) = of_int n"
proof -
  define e where "e = ulp_exp (of_int n * 2 ^ 1074)"
  have "(of_int n :: rat) < 2 ^ 53"
    using assms(2) by (metis of_int_less_numeral_power_cancel_iff)
  then have "(of_int n :: rat) * 2 ^ 1074 < 2 ^ 53 * 2 ^ 1074"
    by (rule mult_strict_right_mono) (rule zero_less_power, simp)
  then have "(of_int n :: rat) * 2 ^ 1074 < 2 ^ (1074 + 53)"
    by (simp only: power_add mult.commute)
  then have le: "e \<le> 1074" unfolding e_def by (rule ulp_exp_le)
  have "(of_int n :: rat) * 2 ^ 1074 / 2 ^ e = of_int n * 2 ^ (1074 - e)"
    using le by (rule scale_div)
  also have "\<dots> = of_int (n * 2 ^ (1074 - e))"
    by (simp only: of_int_mult of_int_power of_int_numeral)
  finally show ?thesis
    unfolding e_def by (rule round_mag_exact)
qed


lemma round_double_mono:
  assumes "a \<le> b"
  shows "js_le (round_double a) (round_double b)"
proof -
  consider "0 \<le> a" | "a < 0" "0 \<le> b" | "b < 0" by linarith
  then show ?thesis
  proof cases
    case 1
    with assms have "round_mag \<bar>a\<bar> \<le> round_mag \<bar>b\<bar>"
      by (intro round_mag_mono) simp
    with 1 assms show ?thesis
      by (auto simp: round_double_def Let_def js_le_def)
  next
    case 2
    have "0 \<le> round_mag \<bar>a\<bar>" "0 \<le> round_mag \<bar>b\<bar>"
      by (simp_all add: round_mag_nonneg)
    with 2 show ?thesis
      by (auto simp: round_double_def Let_def js_le_def)
  next
    case 3
    with assms have "round_mag \<bar>b\<bar> \<le> round_mag \<bar>a\<bar>"
      by (intro round_mag_mono) simp
    with 3 assms show ?thesis
      by (auto simp: round_double_def Let_def js_le_def)
  qed
qed

lemma round_double_int:
  assumes "\<bar>n\<bar> < 2 ^ 53"
  shows "round_double (of_int n) = Fin (of_int n)"
proof -
  have "round_mag (of_int \<bar>n\<bar>) = of_int \<bar>n\<bar>"
    using assms by (intro round_mag_int) simp_all
  then have r: "round_mag \<bar>of_int n\<bar> = of_int \<bar>n\<bar>"
    by simp
  have "(of_int \<bar>n\<bar> :: rat) < 2 ^ 53"
    using assms by (metis of_int_less_numeral_power_cancel_iff)
  also have "(2::rat) ^ 53 \<le> 2 ^ 1024"
    by (rule power_increasing) simp_all
  finally have "\<not> (2::rat) ^ 1024 \<le> of_int \<bar>n\<bar>" by simp
  then show ?thesis
    unfolding round_double_def Let_def r by (simp del: of_int_abs)
qed

lemma is_double_int: "\<bar>n\<bar> < 2 ^ 53 \<Longrightarrow> is_double (of_int n)"
  by (simp add: is_double_def round_double_int)

lemma round_double_numeral [simp]:
  "(numeral k :: int) < 2 ^ 53 \<Longrightarrow> round_double (numeral k) = Fin (numeral k)"
  "(numeral k :: int) < 2 ^ 53 \<Longrightarrow> round_double (- numeral k) = Fin (- numeral k)"
  "round_double 0 = Fin 0"
  "round_double 1 = Fin 1"
  using round_double_int [of "numeral k"] round_double_int [of "- numeral k"]
    round_double_int [of 0] round_double_int [of 1]
  by simp_all

lemma is_double_numeral [simp]:
  "(numeral k :: int) < 2 ^ 53 \<Longrightarrow> is_double (numeral k)"
  "(numeral k :: int) < 2 ^ 53 \<Longrightarrow> is_double (- numeral k)"
  "is_double 0"
  "is_double 1"
  by (simp_all add: is_double_def)

text \<open>Adding a non-negative number to a binary64 value never gives less.\<close>

lemma js_le_round_add:
  assumes "is_double x" "0 \<le> d"
  shows "js_le (Fin x) (round_double (x + d))"
  using round_double_mono [of x "x + d"] assms by (simp add: is_double_def)





lemma ulp_exp_2_53: "ulp_exp (2 ^ 53 * 2 ^ 1074) = 1075"
  by (rule ulp_exp_eqI) simp_all

lemma ulp_exp_2_53_1: "ulp_exp ((2 ^ 53 + 1) * 2 ^ 1074) = 1075"
  by (rule ulp_exp_eqI) simp_all

lemma round_double_2_53: "round_double (2 ^ 53) = Fin (2 ^ 53)"
  unfolding round_double_def round_mag_def Let_def
  by (simp add: ulp_exp_2_53 [simplified] round_half_even_def Let_def)

lemma floor_half_2_53_1: "\<lfloor>(2 ^ 53 + 1) / 2 :: rat\<rfloor> = 2 ^ 52"
  by (rule floor_unique) simp_all

lemma round_double_2_53_1: "round_double (2 ^ 53 + 1) = Fin (2 ^ 53)"
  unfolding round_double_def round_mag_def Let_def
  by (simp add: ulp_exp_2_53_1 [simplified] floor_half_2_53_1 [simplified] round_half_even_def Let_def)

text \<open>
  Two checks of the rounding against values every implementation of binary64 agrees on:
  the number nearest to one tenth, and \<^verbatim>\<open>0.1 + 0.2\<close>, which is
  \<^verbatim>\<open>0.30000000000000004\<close> and not the number nearest to three tenths.
\<close>

lemma ulp_exp_tenth: "ulp_exp (1 / 10 * 2 ^ 1074) = 1018"
  by (rule ulp_exp_eqI) simp_all

lemma floor_tenth: "\<lfloor>36028797018963968 / 5 :: rat\<rfloor> = 7205759403792793"
  by (rule floor_unique) simp_all

lemma round_double_tenth: "round_double (1 / 10) = Fin (3602879701896397 / 2 ^ 55)"
  unfolding round_double_def round_mag_def Let_def
  by (simp add: ulp_exp_tenth [simplified] floor_tenth round_half_even_def Let_def)

lemma ulp_exp_three_tenths:
  "ulp_exp ((3602879701896397 / 2 ^ 55 + 3602879701896397 / 2 ^ 54) * 2 ^ 1074) = 1020"
  by (rule ulp_exp_eqI) simp_all

lemma floor_three_tenths: "\<lfloor>10808639105689191 / 2 :: rat\<rfloor> = 5404319552844595"
  by (rule floor_unique) simp_all

lemma tenth_plus_two_tenths:
  "js_add (Fin (3602879701896397 / 2 ^ 55)) (Fin (3602879701896397 / 2 ^ 54)) =
     Fin (1351079888211149 / 2 ^ 52)"
  unfolding js_add.simps round_double_def round_mag_def Let_def
  by (simp add: ulp_exp_three_tenths [simplified] floor_three_tenths round_half_even_def Let_def)

section \<open>Minimum and maximum\<close>

lemma js_le_refl [simp]: "js_le (Fin a) (Fin b) \<longleftrightarrow> a \<le> b"
  by (auto simp: js_le_def)

lemma js_le_trans: "js_le a b \<Longrightarrow> js_le b c \<Longrightarrow> js_le a c"
  by (cases a; cases b; cases c) (auto simp: js_le_def)

lemma isFinite_iff: "isFinite v \<longleftrightarrow> (\<exists>m. v = Fin m)"
  by (cases v) simp_all

lemma math_min_loop_Fin_iff:
  "math_min_loop xs l = Fin m \<longleftrightarrow>
     (Fin m \<in> set xs \<or> l = Fin m) \<and> (\<forall>v\<in>set xs. js_le (Fin m) v) \<and> js_le (Fin m) l"
proof (induction xs arbitrary: l)
  case Nil
  show ?case by (cases l) (auto simp: js_le_def)
next
  case (Cons number rest)
  let ?l = "if js_lt number l then number else l"
  have "math_min_loop (number # rest) l = Fin m \<longleftrightarrow>
          number \<noteq> NaN \<and> math_min_loop rest ?l = Fin m"
    by simp
  also have "\<dots> \<longleftrightarrow> number \<noteq> NaN \<and>
          ((Fin m \<in> set rest \<or> ?l = Fin m) \<and> (\<forall>v\<in>set rest. js_le (Fin m) v) \<and>
           js_le (Fin m) ?l)"
    by (simp only: Cons.IH)
  also have "\<dots> \<longleftrightarrow> (Fin m \<in> set (number # rest) \<or> l = Fin m) \<and>
          (\<forall>v\<in>set (number # rest). js_le (Fin m) v) \<and> js_le (Fin m) l"
    by (cases number; cases l) (auto simp: js_le_def)
  finally show ?case .
qed

lemma Math_min_Fin_iff:
  "Math_min xs = Fin m \<longleftrightarrow> Fin m \<in> set xs \<and> (\<forall>v\<in>set xs. js_le (Fin m) v)"
  by (simp add: Math_min_def math_min_loop_Fin_iff js_le_def)

lemma math_max_loop_Fin_iff:
  "math_max_loop xs h = Fin m \<longleftrightarrow>
     (Fin m \<in> set xs \<or> h = Fin m) \<and> (\<forall>v\<in>set xs. js_le v (Fin m)) \<and> js_le h (Fin m)"
proof (induction xs arbitrary: h)
  case Nil
  show ?case by (cases h) (auto simp: js_le_def)
next
  case (Cons number rest)
  let ?h = "if js_lt h number then number else h"
  have "math_max_loop (number # rest) h = Fin m \<longleftrightarrow>
          number \<noteq> NaN \<and> math_max_loop rest ?h = Fin m"
    by simp
  also have "\<dots> \<longleftrightarrow> number \<noteq> NaN \<and>
          ((Fin m \<in> set rest \<or> ?h = Fin m) \<and> (\<forall>v\<in>set rest. js_le v (Fin m)) \<and>
           js_le ?h (Fin m))"
    by (simp only: Cons.IH)
  also have "\<dots> \<longleftrightarrow> (Fin m \<in> set (number # rest) \<or> h = Fin m) \<and>
          (\<forall>v\<in>set (number # rest). js_le v (Fin m)) \<and> js_le h (Fin m)"
    by (cases number; cases h) (auto simp: js_le_def)
  finally show ?case .
qed

lemma Math_max_Fin_iff:
  "Math_max xs = Fin m \<longleftrightarrow> Fin m \<in> set xs \<and> (\<forall>v\<in>set xs. js_le v (Fin m))"
  by (simp add: Math_max_def math_max_loop_Fin_iff js_le_def)



section \<open>Validity of a node and the bounding box\<close>

lemma typeof_number_iff: "typeof v = ''number'' \<longleftrightarrow> (\<exists>n. v = Number n)"
  by (cases v) simp_all

lemma isValidNode_world [simp]: "snd (isValidNode node w) = w"
  by (simp add: isValidNode_def Let_def split: option.splits sum.splits)

lemma valid_iff:
  "valid w node \<longleftrightarrow>
     typeof (node_x (props_of w node)) = ''number'' \<and>
     typeof (node_y (props_of w node)) = ''number'' \<and>
     typeof (node_width (props_of w node)) = ''number'' \<and>
     typeof (node_height (props_of w node)) = ''number'' \<and>
     js_greater (node_width (props_of w node)) (Number (Fin 0)) \<and>
     js_greater (node_height (props_of w node)) (Number (Fin 0))"
  by (auto simp: valid_def isValidNode_def props_of_def no_properties_def Let_def
      split: option.splits sum.splits)

lemma valid_readable: "valid w node \<Longrightarrow> readable w node"
  by (auto simp: valid_def isValidNode_def readable_def split: option.splits sum.splits)

lemma valid_Some: "valid w node \<Longrightarrow> \<exists>r. node = Some r \<and> get_properties w r = Inr (props_of w node)"
  by (auto simp: valid_def isValidNode_def props_of_def split: option.splits sum.splits)

lemma isValidNode_readable: "readable w node \<Longrightarrow> isValidNode node w = (Inr (valid w node), w)"
  by (auto simp: valid_def isValidNode_def readable_def Let_def split: option.splits sum.splits)

lemma isValidNode_unreadable: "\<not> readable w node \<Longrightarrow> \<exists>e. isValidNode node w = (Inl e, w)"
  by (auto simp: isValidNode_def readable_def split: option.splits sum.splits)

lemma filter_isValidNode_world [simp]: "snd (filter_isValidNode nodes w) = w"
proof (induction nodes)
  case Nil
  show ?case by simp
next
  case (Cons node nodes)
  obtain r where r: "isValidNode node w = (r, w)"
    using isValidNode_world [of node w] by (cases "isValidNode node w") simp
  obtain k where k: "filter_isValidNode nodes w = (k, w)"
    using Cons.IH by (cases "filter_isValidNode nodes w") simp
  show ?case
    by (simp add: r k split: sum.splits)
qed

lemma filter_isValidNode_readable:
  "\<forall>n\<in>set nodes. readable w n \<Longrightarrow>
     filter_isValidNode nodes w = (Inr (filter (valid w) nodes), w)"
  by (induction nodes) (simp_all add: isValidNode_readable)

lemma filter_isValidNode_unreadable:
  "\<not> (\<forall>n\<in>set nodes. readable w n) \<Longrightarrow> \<exists>e. filter_isValidNode nodes w = (Inl e, w)"
proof (induction nodes)
  case Nil
  then show ?case by simp
next
  case (Cons node nodes)
  show ?case
  proof (cases "readable w node")
    case False
    then obtain e where "isValidNode node w = (Inl e, w)"
      using isValidNode_unreadable by blast
    then show ?thesis by simp
  next
    case True
    with Cons.prems have "\<not> (\<forall>n\<in>set nodes. readable w n)" by simp
    then obtain e where "filter_isValidNode nodes w = (Inl e, w)"
      using Cons.IH by blast
    with True show ?thesis by (simp add: isValidNode_readable)
  qed
qed

lemma map_nodes_valid:
  "\<forall>n\<in>set ns. valid w n \<Longrightarrow> map_nodes f ns w = Inr (map (\<lambda>n. f (props_of w n)) ns)"
proof (induction ns)
  case Nil
  show ?case by simp
next
  case (Cons n ns)
  then obtain r where "n = Some r" "get_properties w r = Inr (props_of w n)"
    using valid_Some [of w n] by auto
  with Cons show ?case by simp
qed

text \<open>The four lists of numbers the bounds are taken from.\<close>

lemma calculateBoundingBox_try_readable:
  assumes "\<forall>n\<in>set nodes. readable w n"
  shows "calculateBoundingBox_try nodes w =
    (let vs = filter (valid w) nodes;
         xs = map (\<lambda>n. ToNumber (node_x (props_of w n))) vs;
         ys = map (\<lambda>n. ToNumber (node_y (props_of w n))) vs;
         rights = map (\<lambda>n. js_plus (node_x (props_of w n)) (node_width (props_of w n))) vs;
         bottoms = map (\<lambda>n. js_plus (node_y (props_of w n)) (node_height (props_of w n))) vs
     in (Inr (if vs = [] then None
         else if \<not> isFinite (Math_min xs) \<or> \<not> isFinite (Math_min ys) \<or>
                 \<not> isFinite (Math_max rights) \<or> \<not> isFinite (Math_max bottoms)
         then None
         else Some \<lparr>minX = Math_min xs, minY = Math_min ys,
                    maxX = Math_max rights, maxY = Math_max bottoms\<rparr>), w))"
proof -
  have v: "\<forall>n\<in>set (filter (valid w) nodes). valid w n" by simp
  show ?thesis
    unfolding calculateBoundingBox_try_def filter_isValidNode_readable [OF assms]
    by (simp add: map_nodes_valid [OF v] Let_def)
qed

lemma calculateBoundingBox_unreadable:
  assumes "\<not> (\<forall>n\<in>set nodes. readable w n)"
  shows "fst (calculateBoundingBox s nodes w) = None"
proof -
  from assms have "nodes \<noteq> []" by auto
  moreover obtain e where "filter_isValidNode nodes w = (Inl e, w)"
    using filter_isValidNode_unreadable [OF assms] by blast
  ultimately show ?thesis
    by (simp add: calculateBoundingBox_def calculateBoundingBox_try_def)
qed

lemma js_greater_zero [simp]: "js_greater (Number v) (Number (Fin 0)) = js_lt (Fin 0) v"
  by (simp add: js_greater_def)

section \<open>Claims about \<open>isValidNode\<close>\<close>

text \<open>
  Claim C2, as the code has it. \<open>isValidNode\<close> returns \<^verbatim>\<open>true\<close> exactly when the value is
  an object (not \<^verbatim>\<open>null\<close>) whose \<open>x\<close>, \<open>y\<close>, \<open>width\<close> and \<open>height\<close> are all of
  type number with \<open>width > 0\<close> and \<open>height > 0\<close>. The test is on the type, not on
  finiteness: every node that is valid in the words of the specification is accepted,
  and so are a \<open>NaN\<close> or infinite \<open>x\<close> or \<open>y\<close> and a \<open>width\<close> or \<open>height\<close> of
  \<open>+Infinity\<close>; a \<open>width\<close> or \<open>height\<close> that is \<open>NaN\<close> fails \<open>> 0\<close> and is
  rejected.
\<close>

theorem isValidNode_true_iff:
  "(fst (isValidNode node w) = Inr True \<longleftrightarrow>
      (\<exists>r n xv yv wv hv.
         node = Some r \<and> get_properties w r = Inr n \<and>
         node_x n = Number xv \<and> node_y n = Number yv \<and>
         node_width n = Number wv \<and> node_height n = Number hv \<and>
         js_lt (Fin 0) wv \<and> js_lt (Fin 0) hv)) \<and>
   (validateNode_spec w node \<longrightarrow> fst (isValidNode node w) = Inr True)"
proof -
  have "validateNode_spec w node \<longrightarrow> fst (isValidNode node w) = Inr True"
    by (auto simp: validateNode_spec_def isValidNode_def Let_def
        split: option.splits sum.splits elim!: finite_number.elims)
  moreover have "fst (isValidNode node w) = Inr True \<longleftrightarrow>
      (\<exists>r n xv yv wv hv.
         node = Some r \<and> get_properties w r = Inr n \<and>
         node_x n = Number xv \<and> node_y n = Number yv \<and>
         node_width n = Number wv \<and> node_height n = Number hv \<and>
         js_lt (Fin 0) wv \<and> js_lt (Fin 0) hv)"
    by (auto simp: isValidNode_def Let_def typeof_number_iff split: option.splits sum.splits)
  ultimately show ?thesis by blast
qed

text \<open>The theorem at a node with four finite numbers.\<close>

theorem isValidNode_true_iff_witness:
  "validateNode_spec
     (world_with [0 \<mapsto> NodeObject (number_node (Fin 3) (Fin 4) (Fin 10) (Fin 20))] None)
     (Some 0) \<and>
   fst (isValidNode (Some 0)
     (world_with [0 \<mapsto> NodeObject (number_node (Fin 3) (Fin 4) (Fin 10) (Fin 20))] None))
     = Inr True"
proof -
  let ?w = "world_with [0 \<mapsto> NodeObject (number_node (Fin 3) (Fin 4) (Fin 10) (Fin 20))] None"
  have h: "validateNode_spec ?w (Some 0)"
    by (simp add: validateNode_spec_def get_properties_def world_with_def number_node_def)
  with isValidNode_true_iff [of "Some 0" ?w] show ?thesis by blast
qed

text \<open>
  Claim C2 as it is written fails: a node whose \<open>x\<close> is \<open>NaN\<close> is not valid in the
  words of the specification, and \<open>isValidNode\<close> returns \<^verbatim>\<open>true\<close> for it.
\<close>

theorem isValidNode_accepts_NaN:
  "fst (isValidNode (Some 0)
     (world_with [0 \<mapsto> NodeObject (number_node NaN (Fin 0) (Fin 1) (Fin 1))] None))
     = Inr True \<and>
   \<not> validateNode_spec
     (world_with [0 \<mapsto> NodeObject (number_node NaN (Fin 0) (Fin 1) (Fin 1))] None) (Some 0)"
  by (simp add: isValidNode_def validateNode_spec_def get_properties_def world_with_def
      number_node_def)

text \<open>
  Claim C6, as the code has it. A node whose \<open>x\<close> and \<open>y\<close> are numbers and whose
  \<open>width\<close> and \<open>height\<close> are numbers greater than zero is valid. Replacing its
  \<open>width\<close> or its \<open>height\<close> by a number \<open>v\<close> makes the verdict \<open>v > 0\<close>: false
  for zero, for a negative number, for \<open>NaN\<close> and for \<open>-Infinity\<close>, true for
  \<open>+Infinity\<close>. Replacing its \<open>x\<close> or its \<open>y\<close> by any number, be it zero,
  negative, \<open>NaN\<close> or infinite, leaves it valid.
\<close>

theorem isValidNode_mutation:
  assumes "objects w r = Some (NodeObject n)"
    and "node_x n = Number xv" and "node_y n = Number yv"
    and "node_width n = Number wv" and "node_height n = Number hv"
    and "js_lt (Fin 0) wv" and "js_lt (Fin 0) hv"
  shows "fst (isValidNode (Some r) w) = Inr True \<and>
    (\<forall>v. fst (isValidNode (Some r) (set_node r (n\<lparr>node_width := Number v\<rparr>) w))
           = Inr (js_lt (Fin 0) v)) \<and>
    (\<forall>v. fst (isValidNode (Some r) (set_node r (n\<lparr>node_height := Number v\<rparr>) w))
           = Inr (js_lt (Fin 0) v)) \<and>
    (\<forall>v. fst (isValidNode (Some r) (set_node r (n\<lparr>node_x := Number v\<rparr>) w)) = Inr True) \<and>
    (\<forall>v. fst (isValidNode (Some r) (set_node r (n\<lparr>node_y := Number v\<rparr>) w)) = Inr True)"
  using assms by (simp add: isValidNode_def get_properties_def set_node_def)

text \<open>The theorem at the node \<open>(5, 5, 10, 10)\<close>.\<close>

theorem isValidNode_mutation_witness:
  "fst (isValidNode (Some 0)
     (world_with [0 \<mapsto> NodeObject (number_node (Fin 5) (Fin 5) (Fin 10) (Fin 10))] None))
     = Inr True \<and>
   fst (isValidNode (Some 0)
     (set_node 0 ((number_node (Fin 5) (Fin 5) (Fin 10) (Fin 10))\<lparr>node_width := Number NaN\<rparr>)
        (world_with [0 \<mapsto> NodeObject (number_node (Fin 5) (Fin 5) (Fin 10) (Fin 10))] None)))
     = Inr False \<and>
   fst (isValidNode (Some 0)
     (set_node 0 ((number_node (Fin 5) (Fin 5) (Fin 10) (Fin 10))\<lparr>node_height := Number (Fin 0)\<rparr>)
        (world_with [0 \<mapsto> NodeObject (number_node (Fin 5) (Fin 5) (Fin 10) (Fin 10))] None)))
     = Inr False \<and>
   fst (isValidNode (Some 0)
     (set_node 0 ((number_node (Fin 5) (Fin 5) (Fin 10) (Fin 10))\<lparr>node_x := Number PosInf\<rparr>)
        (world_with [0 \<mapsto> NodeObject (number_node (Fin 5) (Fin 5) (Fin 10) (Fin 10))] None)))
     = Inr True"
  using isValidNode_mutation
    [of "world_with [0 \<mapsto> NodeObject (number_node (Fin 5) (Fin 5) (Fin 10) (Fin 10))] None"
        0 "number_node (Fin 5) (Fin 5) (Fin 10) (Fin 10)" "Fin 5" "Fin 5" "Fin 10" "Fin 10"]
  by (simp add: world_with_def number_node_def)

text \<open>
  Claim C6 as it is written fails: setting the \<open>x\<close> of the valid node
  \<open>(5, 5, 10, 10)\<close> to zero leaves it valid.
\<close>

theorem isValidNode_x_set_to_zero:
  "fst (isValidNode (Some 0)
     (world_with [0 \<mapsto> NodeObject (number_node (Fin 5) (Fin 5) (Fin 10) (Fin 10))] None))
     = Inr True \<and>
   fst (isValidNode (Some 0)
     (set_node 0 ((number_node (Fin 5) (Fin 5) (Fin 10) (Fin 10))\<lparr>node_x := Number (Fin 0)\<rparr>)
        (world_with [0 \<mapsto> NodeObject (number_node (Fin 5) (Fin 5) (Fin 10) (Fin 10))] None)))
     = Inr True"
  by (simp add: isValidNode_def get_properties_def world_with_def number_node_def set_node_def)

section \<open>Claims about \<open>calculateBoundingBox\<close>\<close>






section \<open>Claims about the group rectangle\<close>

lemma js_sub_Fin [simp]: "js_sub (Fin a) (Fin b) = round_double (a - b)"
  by (simp add: js_sub_def)

lemma create_group_reject:
  assumes "js_le (group_width b (padding s)) (Fin 0) \<or> js_le (group_height b (padding s)) (Fin 0)"
  shows "create_group s canvas validNodes b w =
         (Inr (), showNotice s ''Invalid group dimensions calculated'' w)"
  using assms unfolding create_group_def Let_def by (simp only: if_True)

lemma create_group_accept:
  assumes "\<not> (js_le (group_width b (padding s)) (Fin 0) \<or>
               js_le (group_height b (padding s)) (Fin 0))"
    and "createGroupNode canvas = Returns"
  shows "\<exists>rest. trace (snd (create_group s canvas validNodes b w)) =
          trace w @
            CreateGroupNode
              \<lparr>pos_x = js_sub (minX b) (padding s), pos_y = js_sub (minY b) (padding s),
               size_width = group_width b (padding s),
               size_height = group_height b (padding s),
               label = defaultLabel s\<rparr> # rest"
proof -
  have "create_group s canvas validNodes b w =
      (let w1 = emit (CreateGroupNode
                                 \<lparr>pos_x = js_sub (minX b) (padding s),
                                  pos_y = js_sub (minY b) (padding s),
                                  size_width = group_width b (padding s),
                                  size_height = group_height b (padding s),
                                  label = defaultLabel s\<rparr>) w;
                     count = string_of_nat (length validNodes);
                     finish = (\<lambda>w2. (Inr (),
                               log_debug s (''Successfully created group with '' @ count @ '' nodes'') None
                                 (showNotice s (''Group created with '' @ count @ '' node(s)'') w2)))
                 in case requestSave canvas of
                      NotAFunction \<Rightarrow> finish w1
                    | Returns \<Rightarrow> finish (emit RequestSave w1)
                    | Throws e \<Rightarrow> (Inl e, w1))"
    using assms unfolding create_group_def Let_def by (simp only: if_False host_fn.case)
  then show ?thesis
    by (cases "requestSave canvas")
       (simp_all add: Let_def emit_def showNotice_def log_debug_def)
qed

text \<open>
  Claim C4. For every bounding box and padding the width of the group is
  \<open>(maxX - minX) + padding * 2\<close> and its height \<open>(maxY - minY) + padding * 2\<close>. When
  the width or the height is \<open>\<le> 0\<close> the only effect is the notice of invalid
  dimensions; otherwise \<^verbatim>\<open>createGroupNode\<close> is called with the position
  \<open>(minX - padding, minY - padding)\<close> and that width and height. With padding
  \<open>20\<close> the bounds \<open>(0, 0, 100, 50)\<close> give the rectangle \<open>(-20, -20, 140, 90)\<close>;
  with padding \<open>-1000\<close> they are rejected.
\<close>

theorem create_group_rectangle:
  assumes "createGroupNode canvas = Returns"
  shows
   "group_width b (padding s) = js_add (js_sub (maxX b) (minX b)) (js_mul (padding s) (Fin 2)) \<and>
    group_height b (padding s) = js_add (js_sub (maxY b) (minY b)) (js_mul (padding s) (Fin 2)) \<and>
    (js_le (group_width b (padding s)) (Fin 0) \<or> js_le (group_height b (padding s)) (Fin 0) \<longrightarrow>
       create_group s canvas validNodes b w =
         (Inr (), showNotice s ''Invalid group dimensions calculated'' w)) \<and>
    (\<not> (js_le (group_width b (padding s)) (Fin 0) \<or> js_le (group_height b (padding s)) (Fin 0)) \<longrightarrow>
       (\<exists>rest. trace (snd (create_group s canvas validNodes b w)) =
          trace w @
            CreateGroupNode
              \<lparr>pos_x = js_sub (minX b) (padding s), pos_y = js_sub (minY b) (padding s),
               size_width = group_width b (padding s),
               size_height = group_height b (padding s),
               label = defaultLabel s\<rparr> # rest)) \<and>
    (padding s = Fin 20 \<and> b = \<lparr>minX = Fin 0, minY = Fin 0, maxX = Fin 100, maxY = Fin 50\<rparr> \<longrightarrow>
       (\<exists>rest. trace (snd (create_group s canvas validNodes b w)) =
          trace w @
            CreateGroupNode
              \<lparr>pos_x = Fin (- 20), pos_y = Fin (- 20), size_width = Fin 140,
               size_height = Fin 90, label = defaultLabel s\<rparr> # rest)) \<and>
    (padding s = Fin (- 1000) \<and> b = \<lparr>minX = Fin 0, minY = Fin 0, maxX = Fin 100, maxY = Fin 50\<rparr> \<longrightarrow>
       create_group s canvas validNodes b w =
         (Inr (), showNotice s ''Invalid group dimensions calculated'' w))"
proof (intro conjI impI)
  show "group_width b (padding s) = js_add (js_sub (maxX b) (minX b)) (js_mul (padding s) (Fin 2))"
    by (simp add: group_width_def)
  show "group_height b (padding s) = js_add (js_sub (maxY b) (minY b)) (js_mul (padding s) (Fin 2))"
    by (simp add: group_height_def)
next
  assume "js_le (group_width b (padding s)) (Fin 0) \<or> js_le (group_height b (padding s)) (Fin 0)"
  then show "create_group s canvas validNodes b w =
         (Inr (), showNotice s ''Invalid group dimensions calculated'' w)"
    by (rule create_group_reject)
next
  assume "\<not> (js_le (group_width b (padding s)) (Fin 0) \<or> js_le (group_height b (padding s)) (Fin 0))"
  then show "\<exists>rest. trace (snd (create_group s canvas validNodes b w)) =
          trace w @
            CreateGroupNode
              \<lparr>pos_x = js_sub (minX b) (padding s), pos_y = js_sub (minY b) (padding s),
               size_width = group_width b (padding s),
               size_height = group_height b (padding s),
               label = defaultLabel s\<rparr> # rest"
    using assms by (rule create_group_accept)
next
  assume a: "padding s = Fin 20 \<and> b = \<lparr>minX = Fin 0, minY = Fin 0, maxX = Fin 100, maxY = Fin 50\<rparr>"
  then have wh: "group_width b (padding s) = Fin 140" "group_height b (padding s) = Fin 90"
    by (simp_all add: group_width_def group_height_def)
  then have "\<not> (js_le (group_width b (padding s)) (Fin 0) \<or>
               js_le (group_height b (padding s)) (Fin 0))"
    by simp
  from create_group_accept [OF this assms, of validNodes w]
  show "\<exists>rest. trace (snd (create_group s canvas validNodes b w)) =
          trace w @
            CreateGroupNode
              \<lparr>pos_x = Fin (- 20), pos_y = Fin (- 20), size_width = Fin 140,
               size_height = Fin 90, label = defaultLabel s\<rparr> # rest"
    unfolding wh using a by simp
next
  assume a: "padding s = Fin (- 1000) \<and> b = \<lparr>minX = Fin 0, minY = Fin 0, maxX = Fin 100, maxY = Fin 50\<rparr>"
  then have "group_width b (padding s) = Fin (- 1900)"
    by (simp add: group_width_def)
  then have "js_le (group_width b (padding s)) (Fin 0) \<or> js_le (group_height b (padding s)) (Fin 0)"
    by simp
  then show "create_group s canvas validNodes b w =
         (Inr (), showNotice s ''Invalid group dimensions calculated'' w)"
    by (rule create_group_reject)
qed

text \<open>The theorem at the default settings, whose padding is \<open>20\<close>.\<close>

theorem create_group_rectangle_witness:
  "createGroupNode \<lparr>createGroupNode = Returns, requestSave = Returns\<rparr> = Returns \<and>
   (\<exists>rest.
      trace (snd (create_group DEFAULT_SETTINGS \<lparr>createGroupNode = Returns, requestSave = Returns\<rparr>
          [Some 0, Some 1] \<lparr>minX = Fin 0, minY = Fin 0, maxX = Fin 100, maxY = Fin 50\<rparr>
          (world_with Map.empty None))) =
        CreateGroupNode
          \<lparr>pos_x = Fin (- 20), pos_y = Fin (- 20), size_width = Fin 140,
           size_height = Fin 90, label = []\<rparr> # rest)"
  using create_group_rectangle
    [of "\<lparr>createGroupNode = Returns, requestSave = Returns\<rparr>"
        "\<lparr>minX = Fin 0, minY = Fin 0, maxX = Fin 100, maxY = Fin 50\<rparr>"
        DEFAULT_SETTINGS "[Some 0, Some 1]" "world_with Map.empty None"]
  by (simp add: DEFAULT_SETTINGS_def world_with_def)

section \<open>The end-to-end example\<close>

lemma calculateBoundingBox_readable:
  assumes "\<forall>n\<in>set nodes. readable w n"
  shows "calculateBoundingBox s nodes w =
    (let vs = filter (valid w) nodes;
         xs = map (\<lambda>n. ToNumber (node_x (props_of w n))) vs;
         ys = map (\<lambda>n. ToNumber (node_y (props_of w n))) vs;
         rights = map (\<lambda>n. js_plus (node_x (props_of w n)) (node_width (props_of w n))) vs;
         bottoms = map (\<lambda>n. js_plus (node_y (props_of w n)) (node_height (props_of w n))) vs
     in (if vs = [] then None
         else if \<not> isFinite (Math_min xs) \<or> \<not> isFinite (Math_min ys) \<or>
                 \<not> isFinite (Math_max rights) \<or> \<not> isFinite (Math_max bottoms)
         then None
         else Some \<lparr>minX = Math_min xs, minY = Math_min ys,
                    maxX = Math_max rights, maxY = Math_max bottoms\<rparr>, w))"
  by (simp add: calculateBoundingBox_def calculateBoundingBox_try_readable [OF assms] Let_def)

lemma three_nodes_readable: "\<forall>n\<in>set [Some 0, Some 1, Some 2]. readable three_nodes n"
  by (simp add: readable_def get_properties_def three_nodes_def world_with_def)

lemma three_nodes_valid: "filter (valid three_nodes) [Some 0, Some 1, Some 2] = [Some 0, Some 1, Some 2]"
  by (simp add: valid_def isValidNode_def get_properties_def three_nodes_def world_with_def
      number_node_def)

lemma three_nodes_props:
  "props_of three_nodes (Some 0) = number_node (Fin 0) (Fin 0) (Fin 50) (Fin 50)"
  "props_of three_nodes (Some 1) = number_node (Fin 100) (Fin 0) (Fin 50) (Fin 50)"
  "props_of three_nodes (Some 2) = number_node (Fin 0) (Fin 100) (Fin 50) (Fin 50)"
  by (simp_all add: props_of_def get_properties_def three_nodes_def world_with_def)

lemma three_nodes_bounds:
  "calculateBoundingBox s [Some 0, Some 1, Some 2] three_nodes =
     (Some \<lparr>minX = Fin 0, minY = Fin 0, maxX = Fin 150, maxY = Fin 150\<rparr>, three_nodes)"
  unfolding calculateBoundingBox_readable [OF three_nodes_readable] three_nodes_valid Let_def
    list.map three_nodes_props
  by (simp add: number_node_def js_plus_def Math_min_def Math_max_def)

lemma string_of_nat_3: "string_of_nat (Suc (Suc (Suc 0))) = ''3''"
  by (simp add: string_of_nat.simps [of "Suc (Suc (Suc 0))"])

text \<open>
  Claim C7, as the code has it. For the selection of the three valid nodes
  \<open>(0, 0, 50, 50)\<close>, \<open>(100, 0, 50, 50)\<close> and \<open>(0, 100, 50, 50)\<close> with padding
  \<open>10\<close> the bounding box is \<open>(0, 0, 150, 150)\<close> and the group is created at
  \<open>(-10, -10)\<close> with width \<open>170\<close> and height \<open>170\<close>, that is
  \<open>150 + 2 * 10\<close>; then the save is requested and the notice shown.
\<close>

theorem end_to_end_three_nodes:
  "fst (calculateBoundingBox (DEFAULT_SETTINGS\<lparr>padding := Fin 10\<rparr>) [Some 0, Some 1, Some 2]
      three_nodes)
     = Some \<lparr>minX = Fin 0, minY = Fin 0, maxX = Fin 150, maxY = Fin 150\<rparr> \<and>
   createGroupFromSelection (DEFAULT_SETTINGS\<lparr>padding := Fin 10\<rparr>)
      (Some (View (Some \<lparr>createGroupNode = Returns, requestSave = Returns\<rparr>))) three_nodes
     = (Inr (),
        three_nodes\<lparr>trace :=
          [CreateGroupNode
             \<lparr>pos_x = Fin (- 10), pos_y = Fin (- 10), size_width = Fin 170,
              size_height = Fin 170, label = []\<rparr>,
           RequestSave,
           Notice ''Group created with 3 node(s)'']\<rparr>)"
proof -
  have sel: "canvas_selection three_nodes = Some (SetOf [Some 0, Some 1, Some 2])"
    by (simp add: three_nodes_def world_with_def)
  have tr: "trace three_nodes = []"
    by (simp add: three_nodes_def world_with_def)
  have f: "filter_isValidNode [Some 0, Some 1, Some 2] three_nodes
      = (Inr [Some 0, Some 1, Some 2], three_nodes)"
    unfolding filter_isValidNode_readable [OF three_nodes_readable] three_nodes_valid ..
  have g: "create_group (DEFAULT_SETTINGS\<lparr>padding := Fin 10\<rparr>)
       \<lparr>createGroupNode = Returns, requestSave = Returns\<rparr> [Some 0, Some 1, Some 2]
       \<lparr>minX = Fin 0, minY = Fin 0, maxX = Fin 150, maxY = Fin 150\<rparr> three_nodes
     = (Inr (),
        three_nodes\<lparr>trace :=
          [CreateGroupNode
             \<lparr>pos_x = Fin (- 10), pos_y = Fin (- 10), size_width = Fin 170,
              size_height = Fin 170, label = []\<rparr>,
           RequestSave,
           Notice ''Group created with 3 node(s)'']\<rparr>)"
    by (simp add: create_group_def group_width_def group_height_def Let_def emit_def
        showNotice_def log_debug_def DEFAULT_SETTINGS_def string_of_nat_3 tr)
  show ?thesis
    by (simp add: createGroupFromSelection_def createGroupFromSelection_try_def sel f
        three_nodes_bounds g del: filter_isValidNode.simps One_nat_def)
qed


text \<open>
  Claim C7 as it is written fails: the group is not created with width \<open>160\<close> and
  height \<open>160\<close>.
\<close>

theorem end_to_end_width_not_160:
  "\<not> (\<exists>rest.
      trace (snd (createGroupFromSelection (DEFAULT_SETTINGS\<lparr>padding := Fin 10\<rparr>)
        (Some (View (Some \<lparr>createGroupNode = Returns, requestSave = Returns\<rparr>))) three_nodes))
      = CreateGroupNode
          \<lparr>pos_x = Fin (- 10), pos_y = Fin (- 10), size_width = Fin 160,
           size_height = Fin 160, label = []\<rparr> # rest)"
proof -
  have sel: "canvas_selection three_nodes = Some (SetOf [Some 0, Some 1, Some 2])"
    by (simp add: three_nodes_def world_with_def)
  have tr: "trace three_nodes = []"
    by (simp add: three_nodes_def world_with_def)
  have f: "filter_isValidNode [Some 0, Some 1, Some 2] three_nodes
      = (Inr [Some 0, Some 1, Some 2], three_nodes)"
    unfolding filter_isValidNode_readable [OF three_nodes_readable] three_nodes_valid ..
  show ?thesis
    by (simp add: createGroupFromSelection_def createGroupFromSelection_try_def sel f
        three_nodes_bounds create_group_def group_width_def group_height_def Let_def emit_def
        showNotice_def log_debug_def DEFAULT_SETTINGS_def tr
        del: filter_isValidNode.simps One_nat_def)
qed

section \<open>Order and permutation of the bounding box\<close>

lemma math_min_loop_finite:
  "\<forall>v\<in>set xs. isFinite v \<Longrightarrow> isFinite l \<Longrightarrow> isFinite (math_min_loop xs l)"
  by (induction xs arbitrary: l) (auto simp: isFinite_iff)

lemma Math_min_all_finite:
  assumes "xs \<noteq> []" "\<forall>v\<in>set xs. isFinite v"
  shows "isFinite (Math_min xs)"
proof (cases xs)
  case Nil
  with assms show ?thesis by simp
next
  case (Cons x rest)
  with assms obtain q where "x = Fin q" by (auto simp: isFinite_iff)
  with Cons assms show ?thesis
    by (simp add: Math_min_def math_min_loop_finite)
qed

lemma math_max_loop_finite:
  "\<forall>v\<in>set xs. isFinite v \<Longrightarrow> isFinite h \<Longrightarrow> isFinite (math_max_loop xs h)"
  by (induction xs arbitrary: h) (auto simp: isFinite_iff)

lemma Math_max_all_finite:
  assumes "xs \<noteq> []" "\<forall>v\<in>set xs. isFinite v"
  shows "isFinite (Math_max xs)"
proof (cases xs)
  case Nil
  with assms show ?thesis by simp
next
  case (Cons x rest)
  with assms obtain q where "x = Fin q" by (auto simp: isFinite_iff)
  with Cons assms show ?thesis
    by (simp add: Math_max_def math_max_loop_finite)
qed

text \<open>
  One axis of the box: positions \<open>f n\<close> and extents \<open>g n\<close> greater than zero. When the
  least position and the greatest far edge are finite, every position and every far
  edge is, and the least position is not above the greatest far edge.
\<close>

lemma axis_ordered:
  assumes pos: "\<forall>n\<in>set vs. js_lt (Fin 0) (g n)"
    and dbl: "\<forall>n\<in>set vs. \<forall>q. f n = Fin q \<longrightarrow> is_double q"
    and lo: "Math_min (map f vs) = Fin m"
    and hi: "Math_max (map (\<lambda>n. js_add (f n) (g n)) vs) = Fin M"
  shows "m \<le> M \<and> (\<forall>n\<in>set vs. isFinite (f n) \<and> isFinite (js_add (f n) (g n)))"
proof -
  have low: "js_le (Fin m) (f n)" if "n \<in> set vs" for n
    using lo that by (simp add: Math_min_Fin_iff)
  have high: "js_le (js_add (f n) (g n)) (Fin M)" if "n \<in> set vs" for n
    using hi that by (simp add: Math_max_Fin_iff)
  have each: "isFinite (f n) \<and> isFinite (js_add (f n) (g n)) \<and> js_le (f n) (js_add (f n) (g n))"
    if n: "n \<in> set vs" for n
  proof -
    from low [OF n] have fn: "f n \<noteq> NaN" "f n \<noteq> NegInf"
      by (auto simp: js_le_def)
    from pos n have gn: "js_lt (Fin 0) (g n)" by simp
    show ?thesis
    proof (cases "f n")
      case (Fin q)
      with dbl n have dq: "is_double q" by simp
      show ?thesis
      proof (cases "g n")
        case (Fin d)
        with gn have "0 \<le> d" by simp
        from js_le_round_add [OF dq this] have le: "js_le (Fin q) (round_double (q + d))" .
        with high [OF n] \<open>f n = Fin q\<close> \<open>g n = Fin d\<close> show ?thesis
          by (cases "round_double (q + d)") (auto simp: js_le_def)
      next
        case PosInf
        with high [OF n] \<open>f n = Fin q\<close> show ?thesis by (simp add: js_le_def)
      qed (use gn in simp_all)
    next
      case PosInf
      with high [OF n] gn show ?thesis
        by (cases "g n") (simp_all add: js_le_def)
    qed (use fn in simp_all)
  qed
  have "m \<le> M"
  proof -
    from lo obtain n where n: "n \<in> set vs" "f n = Fin m"
      by (auto simp: Math_min_Fin_iff)
    from each [OF n(1)] have "js_le (f n) (js_add (f n) (g n))" by simp
    from this high [OF n(1)] have "js_le (f n) (Fin M)" by (rule js_le_trans)
    with n(2) show ?thesis by simp
  qed
  with each show ?thesis by blast
qed


lemma axis_finite:
  assumes "vs \<noteq> []"
    and "\<forall>n\<in>set vs. isFinite (f n) \<and> isFinite (js_add (f n) (g n))"
  shows "isFinite (Math_min (map f vs)) \<and> isFinite (Math_max (map (\<lambda>n. js_add (f n) (g n)) vs))"
  using assms by (simp add: Math_min_all_finite Math_max_all_finite)



lemma valid_extent:
  assumes "valid w n"
  shows "js_lt (Fin 0) (ToNumber (node_width (props_of w n)))"
    and "js_lt (Fin 0) (ToNumber (node_height (props_of w n)))"
  using assms by (auto simp: valid_iff typeof_number_iff)

lemma double_node_position:
  assumes "double_node w n"
  shows "ToNumber (node_x (props_of w n)) = Fin q \<Longrightarrow> is_double q"
    and "ToNumber (node_y (props_of w n)) = Fin q \<Longrightarrow> is_double q"
proof -
  have *: "double_value v \<Longrightarrow> ToNumber v = Fin q \<Longrightarrow> is_double q" for v
    by (cases v rule: double_value.cases) (simp_all split: if_splits)
  from assms show "ToNumber (node_x (props_of w n)) = Fin q \<Longrightarrow> is_double q"
    and "ToNumber (node_y (props_of w n)) = Fin q \<Longrightarrow> is_double q"
    by (auto simp: double_node_def Let_def dest: *)
qed

lemma calculateBoundingBox_all_valid:
  assumes "\<forall>n\<in>set nodes. valid w n"
  shows "calculateBoundingBox s nodes w =
    (let xs = map (\<lambda>n. ToNumber (node_x (props_of w n))) nodes;
         ys = map (\<lambda>n. ToNumber (node_y (props_of w n))) nodes;
         rights = map (\<lambda>n. js_add (ToNumber (node_x (props_of w n)))
                                   (ToNumber (node_width (props_of w n)))) nodes;
         bottoms = map (\<lambda>n. js_add (ToNumber (node_y (props_of w n)))
                                    (ToNumber (node_height (props_of w n)))) nodes
     in (if nodes = [] then None
         else if \<not> isFinite (Math_min xs) \<or> \<not> isFinite (Math_min ys) \<or>
                 \<not> isFinite (Math_max rights) \<or> \<not> isFinite (Math_max bottoms)
         then None
         else Some \<lparr>minX = Math_min xs, minY = Math_min ys,
                    maxX = Math_max rights, maxY = Math_max bottoms\<rparr>, w))"
proof -
  from assms have r: "\<forall>n\<in>set nodes. readable w n" by (simp add: valid_readable)
  from assms have f: "filter (valid w) nodes = nodes" by simp
  show ?thesis
    unfolding calculateBoundingBox_readable [OF r] f js_plus_def Let_def ..
qed

lemma valid_nodes_box:
  assumes ne: "nodes \<noteq> []"
    and v: "\<forall>n\<in>set nodes. valid w n"
    and d: "\<forall>n\<in>set nodes. double_node w n"
  shows
   "(fst (calculateBoundingBox s nodes w) \<noteq> None \<longleftrightarrow>
       (\<forall>n\<in>set nodes.
          isFinite (ToNumber (node_x (props_of w n))) \<and>
          isFinite (ToNumber (node_y (props_of w n))) \<and>
          isFinite (js_plus (node_x (props_of w n)) (node_width (props_of w n))) \<and>
          isFinite (js_plus (node_y (props_of w n)) (node_height (props_of w n))))) \<and>
    (\<forall>b. fst (calculateBoundingBox s nodes w) = Some b \<longrightarrow>
       js_le (minX b) (maxX b) \<and> js_le (minY b) (maxY b) \<and>
       isFinite (minX b) \<and> isFinite (minY b) \<and> isFinite (maxX b) \<and> isFinite (maxY b))"
proof -
  let ?fx = "\<lambda>n. ToNumber (node_x (props_of w n))"
  let ?gx = "\<lambda>n. ToNumber (node_width (props_of w n))"
  let ?fy = "\<lambda>n. ToNumber (node_y (props_of w n))"
  let ?gy = "\<lambda>n. ToNumber (node_height (props_of w n))"
  let ?xs = "map ?fx nodes" and ?ys = "map ?fy nodes"
  let ?rights = "map (\<lambda>n. js_add (?fx n) (?gx n)) nodes"
  let ?bottoms = "map (\<lambda>n. js_add (?fy n) (?gy n)) nodes"
  let ?allfin = "\<forall>n\<in>set nodes.
          isFinite (?fx n) \<and> isFinite (?fy n) \<and>
          isFinite (js_add (?fx n) (?gx n)) \<and> isFinite (js_add (?fy n) (?gy n))"
  let ?fin = "isFinite (Math_min ?xs) \<and> isFinite (Math_min ?ys) \<and>
              isFinite (Math_max ?rights) \<and> isFinite (Math_max ?bottoms)"
  have res: "fst (calculateBoundingBox s nodes w) =
      (if ?fin then Some \<lparr>minX = Math_min ?xs, minY = Math_min ?ys,
                          maxX = Math_max ?rights, maxY = Math_max ?bottoms\<rparr> else None)"
    unfolding calculateBoundingBox_all_valid [OF v] Let_def fst_conv
    using ne by (cases ?fin) simp_all
  have posx: "\<forall>n\<in>set nodes. js_lt (Fin 0) (?gx n)" and posy: "\<forall>n\<in>set nodes. js_lt (Fin 0) (?gy n)"
    using v by (simp_all add: valid_extent)
  have dblx: "\<forall>n\<in>set nodes. \<forall>q. ?fx n = Fin q \<longrightarrow> is_double q"
    and dbly: "\<forall>n\<in>set nodes. \<forall>q. ?fy n = Fin q \<longrightarrow> is_double q"
    using d double_node_position by blast+
  have ordered: "?allfin \<and> js_le (Math_min ?xs) (Math_max ?rights) \<and>
                 js_le (Math_min ?ys) (Math_max ?bottoms)" if ?fin
  proof -
    from that obtain mx Mx my My where
      m: "Math_min ?xs = Fin mx" "Math_max ?rights = Fin Mx"
         "Math_min ?ys = Fin my" "Math_max ?bottoms = Fin My"
      by (auto simp: isFinite_iff)
    from axis_ordered [OF posx dblx m(1) m(2)] axis_ordered [OF posy dbly m(3) m(4)]
    show ?thesis unfolding m by simp
  qed
  have finite: ?fin if ?allfin
    using axis_finite [OF ne, of ?fx ?gx] axis_finite [OF ne, of ?fy ?gy] that by simp
  have some: "fst (calculateBoundingBox s nodes w) =
      Some \<lparr>minX = Math_min ?xs, minY = Math_min ?ys,
            maxX = Math_max ?rights, maxY = Math_max ?bottoms\<rparr>" if ?fin
    unfolding res using that by (rule if_P)
  have none: "fst (calculateBoundingBox s nodes w) = None" if "\<not> ?fin"
    unfolding res using that by (rule if_not_P)
  have first: "fst (calculateBoundingBox s nodes w) \<noteq> None \<longleftrightarrow> ?allfin"
  proof
    assume some_box: "fst (calculateBoundingBox s nodes w) \<noteq> None"
    have fin: ?fin
    proof (rule ccontr)
      assume "\<not> ?fin"
      then have "fst (calculateBoundingBox s nodes w) = None" by (rule none)
      with some_box show False by simp
    qed
    from ordered [OF fin] show ?allfin by (rule conjunct1)
  next
    assume ?allfin
    then have ?fin by (rule finite)
    then show "fst (calculateBoundingBox s nodes w) \<noteq> None"
      by (simp only: some option.distinct not_False_eq_True)
  qed
  have second: "\<forall>b. fst (calculateBoundingBox s nodes w) = Some b \<longrightarrow>
       js_le (minX b) (maxX b) \<and> js_le (minY b) (maxY b) \<and>
       isFinite (minX b) \<and> isFinite (minY b) \<and> isFinite (maxX b) \<and> isFinite (maxY b)"
  proof (intro allI impI)
    fix b assume b: "fst (calculateBoundingBox s nodes w) = Some b"
    have fin: ?fin
    proof (rule ccontr)
      assume "\<not> ?fin"
      then have "fst (calculateBoundingBox s nodes w) = None" by (rule none)
      with b show False by simp
    qed
    from some [OF fin] b have beq: "b = \<lparr>minX = Math_min ?xs, minY = Math_min ?ys,
            maxX = Math_max ?rights, maxY = Math_max ?bottoms\<rparr>" by simp
    from ordered [OF fin] have "js_le (Math_min ?xs) (Math_max ?rights)"
      "js_le (Math_min ?ys) (Math_max ?bottoms)" by blast+
    with fin show "js_le (minX b) (maxX b) \<and> js_le (minY b) (maxY b) \<and>
       isFinite (minX b) \<and> isFinite (minY b) \<and> isFinite (maxX b) \<and> isFinite (maxY b)"
      unfolding beq by simp
  qed
  from first second show ?thesis
    unfolding js_plus_def by (intro conjI)
qed




lemma three_nodes_each_double:
  "double_node three_nodes (Some 0)" "double_node three_nodes (Some 1)"
  "double_node three_nodes (Some 2)"
  unfolding double_node_def three_nodes_props Let_def by (simp_all add: number_node_def)


lemma three_nodes_double: "\<forall>n\<in>set [Some 0, Some 1, Some 2]. double_node three_nodes n"
  using three_nodes_each_double by (simp del: One_nat_def)







section \<open>The box is never inverted\<close>

lemma box_of_valid_part:
  assumes "fst (calculateBoundingBox s nodes w) = Some b"
  shows "filter (valid w) nodes \<noteq> [] \<and>
         fst (calculateBoundingBox s (filter (valid w) nodes) w) = Some b"
proof -
  have r: "\<forall>n\<in>set nodes. readable w n"
  proof (rule ccontr)
    assume "\<not> (\<forall>n\<in>set nodes. readable w n)"
    then have "fst (calculateBoundingBox s nodes w) = None"
      by (rule calculateBoundingBox_unreadable)
    with assms show False by simp
  qed
  have v: "\<forall>n\<in>set (filter (valid w) nodes). valid w n" by simp
  have same: "fst (calculateBoundingBox s (filter (valid w) nodes) w) =
              fst (calculateBoundingBox s nodes w)"
    unfolding calculateBoundingBox_readable [OF r] calculateBoundingBox_all_valid [OF v]
      js_plus_def Let_def fst_conv ..
  have "filter (valid w) nodes \<noteq> []"
  proof
    assume "filter (valid w) nodes = []"
    then have "fst (calculateBoundingBox s nodes w) = None"
      unfolding calculateBoundingBox_readable [OF r] Let_def fst_conv by (rule if_P)
    with assms show False by simp
  qed
  with same assms show ?thesis by simp
qed

lemma round_double_nonneg:
  assumes "0 \<le> a"
  obtains r where "round_double a = Fin r" "0 \<le> r" | "round_double a = PosInf"
proof -
  from round_double_mono [OF assms] have "js_le (Fin 0) (round_double a)" by simp
  then show thesis
    by (cases "round_double a") (auto simp: js_le_def intro: that)
qed

lemma group_extent_positive:
  assumes mM: "m \<le> M" and pos: "js_lt (Fin 0) p" and dbl: "\<forall>q. p = Fin q \<longrightarrow> is_double q"
  shows "js_lt (Fin 0) (js_add (js_sub (Fin M) (Fin m)) (js_mul p (Fin 2)))"
proof -
  from mM have "0 \<le> M - m" by simp
  then consider a where "js_sub (Fin M) (Fin m) = Fin a" "0 \<le> a"
    | "js_sub (Fin M) (Fin m) = PosInf"
    unfolding js_sub_Fin by (rule round_double_nonneg)
  note extent = this
  have pad: "(\<exists>c q. js_mul p (Fin 2) = Fin c \<and> p = Fin q \<and> 0 < q \<and> q \<le> c \<and> is_double q) \<or>
             js_mul p (Fin 2) = PosInf"
  proof (cases p)
    case (Fin q)
    with pos dbl have q: "0 < q" "is_double q" by simp_all
    from round_double_mono [of q "q * 2"] q have "js_le (Fin q) (round_double (q * 2))"
      by (simp add: is_double_def)
    with Fin q show ?thesis
      by (cases "round_double (q * 2)") (auto simp: js_le_def)
  next
    case PosInf
    then show ?thesis by simp
  qed (use pos in simp_all)
  from extent show ?thesis
  proof cases
    case 1
    from pad show ?thesis
    proof
      assume "\<exists>c q. js_mul p (Fin 2) = Fin c \<and> p = Fin q \<and> 0 < q \<and> q \<le> c \<and> is_double q"
      then obtain c q where c: "js_mul p (Fin 2) = Fin c" "0 < q" "q \<le> c" "is_double q"
        by blast
      from 1 c have "q \<le> a + c" by simp
      from round_double_mono [OF this] c(4) have "js_le (Fin q) (round_double (a + c))"
        by (simp add: is_double_def)
      with c(2) have "js_lt (Fin 0) (round_double (a + c))"
        by (cases "round_double (a + c)") (auto simp: js_le_def)
      with 1 c show ?thesis by simp
    next
      assume "js_mul p (Fin 2) = PosInf"
      with 1 show ?thesis by simp
    qed
  next
    case 2
    from pad show ?thesis
      using 2 by auto
  qed
qed

text \<open>
  Claim C10, as the code has it. Whenever \<open>calculateBoundingBox\<close> returns a box, for
  nodes holding binary64 numbers, \<open>minX \<le> maxX\<close> and \<open>minY \<le> maxY\<close>; and for every
  padding greater than zero the width and the height of the group are greater than zero,
  so that the check of the dimensions does not reject. The inequalities are not strict:
  adding a width to an \<open>x\<close> rounds, and can give \<open>x\<close> back.
\<close>

theorem bounding_box_not_inverted:
  assumes d: "\<forall>n\<in>set nodes. double_node w n"
    and b: "fst (calculateBoundingBox s nodes w) = Some b"
  shows "js_le (minX b) (maxX b) \<and> js_le (minY b) (maxY b) \<and>
    (\<forall>p. js_lt (Fin 0) p \<and> (\<forall>q. p = Fin q \<longrightarrow> is_double q) \<longrightarrow>
       js_lt (Fin 0) (group_width b p) \<and> js_lt (Fin 0) (group_height b p) \<and>
       \<not> (js_le (group_width b p) (Fin 0) \<or> js_le (group_height b p) (Fin 0)))"
proof -
  let ?vs = "filter (valid w) nodes"
  from box_of_valid_part [OF b] have ne: "?vs \<noteq> []"
    and bv: "fst (calculateBoundingBox s ?vs w) = Some b" by blast+
  have v: "\<forall>n\<in>set ?vs. valid w n" by simp
  from d have dv: "\<forall>n\<in>set ?vs. double_node w n" by simp
  note box = conjunct2 [OF valid_nodes_box [OF ne v dv, of s], rule_format, OF bv]
  from box obtain mx my Mx My where
    f: "minX b = Fin mx" "minY b = Fin my" "maxX b = Fin Mx" "maxY b = Fin My"
    by (auto simp: isFinite_iff)
  from box f have le: "mx \<le> Mx" "my \<le> My" by simp_all
  have pad: "js_lt (Fin 0) (group_width b p) \<and> js_lt (Fin 0) (group_height b p) \<and>
       \<not> (js_le (group_width b p) (Fin 0) \<or> js_le (group_height b p) (Fin 0))"
    if p: "js_lt (Fin 0) p \<and> (\<forall>q. p = Fin q \<longrightarrow> is_double q)" for p
  proof -
    from p have p1: "js_lt (Fin 0) p" and p2: "\<forall>q. p = Fin q \<longrightarrow> is_double q" by blast+
    have gw: "js_lt (Fin 0) (group_width b p)"
      unfolding group_width_def f by (rule group_extent_positive [OF le(1) p1 p2])
    have gh: "js_lt (Fin 0) (group_height b p)"
      unfolding group_height_def f by (rule group_extent_positive [OF le(2) p1 p2])
    have "js_lt (Fin 0) x \<Longrightarrow> \<not> js_le x (Fin 0)" for x
      by (simp add: js_le_def)
    with gw gh show ?thesis by blast
  qed
  from box have "js_le (minX b) (maxX b)" "js_le (minY b) (maxY b)" by simp_all
  with pad show ?thesis by blast
qed

text \<open>The theorem at the three nodes of the end-to-end example, with padding \<open>10\<close>.\<close>

theorem bounding_box_not_inverted_witness:
  "double_node three_nodes (Some 0) \<and> double_node three_nodes (Some 1) \<and>
   double_node three_nodes (Some 2) \<and>
   fst (calculateBoundingBox DEFAULT_SETTINGS [Some 0, Some 1, Some 2] three_nodes)
     = Some \<lparr>minX = Fin 0, minY = Fin 0, maxX = Fin 150, maxY = Fin 150\<rparr> \<and>
   js_lt (Fin 0) (Fin 10) \<and> is_double 10 \<and>
   js_lt (Fin 0)
     (group_width \<lparr>minX = Fin 0, minY = Fin 0, maxX = Fin 150, maxY = Fin 150\<rparr> (Fin 10)) \<and>
   js_lt (Fin 0)
     (group_height \<lparr>minX = Fin 0, minY = Fin 0, maxX = Fin 150, maxY = Fin 150\<rparr> (Fin 10))"
proof -
  have b: "fst (calculateBoundingBox DEFAULT_SETTINGS [Some 0, Some 1, Some 2] three_nodes)
     = Some \<lparr>minX = Fin 0, minY = Fin 0, maxX = Fin 150, maxY = Fin 150\<rparr>"
    by (simp only: three_nodes_bounds fst_conv)
  have p: "js_lt (Fin 0) (Fin 10) \<and> (\<forall>q. Fin 10 = Fin q \<longrightarrow> is_double q)"
    by simp
  note t = bounding_box_not_inverted [OF three_nodes_double b]
  note g = conjunct2 [OF conjunct2 [OF t], rule_format, OF p]
  have "js_lt (Fin 0) (Fin 10)" "is_double 10" by simp_all
  with three_nodes_each_double b conjunct1 [OF g] conjunct1 [OF conjunct2 [OF g]]
  show ?thesis by (intro conjI)
qed

text \<open>
  Claim C10 as it is written fails: for two valid nodes of width \<open>1\<close> at
  \<open>x = 2 ^ 53\<close> the sum \<open>x + width\<close> rounds to \<open>2 ^ 53\<close>, the box has
  \<open>maxX = minX\<close>, and with padding \<open>0\<close> the width of the group is \<open>0\<close>:
  \<open>createGroupFromSelection\<close> ends with the notice of invalid dimensions.
\<close>

theorem bounding_box_flat_at_2_53:
  "valid far_nodes (Some 0) \<and> valid far_nodes (Some 1) \<and>
   double_node far_nodes (Some 0) \<and> double_node far_nodes (Some 1) \<and>
   fst (calculateBoundingBox (DEFAULT_SETTINGS\<lparr>padding := Fin 0\<rparr>) [Some 0, Some 1] far_nodes)
     = Some \<lparr>minX = Fin (2 ^ 53), minY = Fin 0, maxX = Fin (2 ^ 53), maxY = Fin 11\<rparr> \<and>
   createGroupFromSelection (DEFAULT_SETTINGS\<lparr>padding := Fin 0\<rparr>)
      (Some (View (Some \<lparr>createGroupNode = Returns, requestSave = Returns\<rparr>))) far_nodes
     = (Inr (), far_nodes\<lparr>trace := [Notice ''Invalid group dimensions calculated'']\<rparr>)"
proof -
  let ?s = "DEFAULT_SETTINGS\<lparr>padding := Fin 0\<rparr>"
  have p: "props_of far_nodes (Some 0) = number_node (Fin (2 ^ 53)) (Fin 0) (Fin 1) (Fin 1)"
    "props_of far_nodes (Some 1) = number_node (Fin (2 ^ 53)) (Fin 10) (Fin 1) (Fin 1)"
    by (simp_all add: props_of_def get_properties_def far_nodes_def world_with_def)
  have v: "valid far_nodes (Some 0)" "valid far_nodes (Some 1)"
    unfolding valid_iff p by (simp_all add: number_node_def)
  have d: "double_node far_nodes (Some 0)" "double_node far_nodes (Some 1)"
    unfolding double_node_def p Let_def
    by (simp_all add: number_node_def is_double_def round_double_2_53 [simplified])
  have av: "\<forall>n\<in>set [Some 0, Some 1]. valid far_nodes n"
    using v by (simp del: One_nat_def)
  have bb: "calculateBoundingBox ?s [Some 0, Some 1] far_nodes
     = (Some \<lparr>minX = Fin (2 ^ 53), minY = Fin 0, maxX = Fin (2 ^ 53), maxY = Fin 11\<rparr>, far_nodes)"
    unfolding calculateBoundingBox_all_valid [OF av] Let_def list.map p
    by (simp add: number_node_def Math_min_def Math_max_def round_double_2_53_1 [simplified])
  have sel: "canvas_selection far_nodes = Some (SetOf [Some 0, Some 1])"
    by (simp add: far_nodes_def world_with_def)
  have tr: "trace far_nodes = []"
    by (simp add: far_nodes_def world_with_def)
  have r: "\<forall>n\<in>set [Some 0, Some 1]. readable far_nodes n"
    using av by (simp add: valid_readable del: One_nat_def)
  have fv: "filter (valid far_nodes) [Some 0, Some 1] = [Some 0, Some 1]"
    using v by (simp del: One_nat_def)
  have f: "filter_isValidNode [Some 0, Some 1] far_nodes = (Inr [Some 0, Some 1], far_nodes)"
    unfolding filter_isValidNode_readable [OF r] fv ..
  have g: "create_group ?s \<lparr>createGroupNode = Returns, requestSave = Returns\<rparr> [Some 0, Some 1]
       \<lparr>minX = Fin (2 ^ 53), minY = Fin 0, maxX = Fin (2 ^ 53), maxY = Fin 11\<rparr> far_nodes
     = (Inr (), far_nodes\<lparr>trace := [Notice ''Invalid group dimensions calculated'']\<rparr>)"
    by (simp add: create_group_def group_width_def group_height_def Let_def emit_def
        showNotice_def DEFAULT_SETTINGS_def tr)
  have c: "createGroupFromSelection ?s
      (Some (View (Some \<lparr>createGroupNode = Returns, requestSave = Returns\<rparr>))) far_nodes
     = (Inr (), far_nodes\<lparr>trace := [Notice ''Invalid group dimensions calculated'']\<rparr>)"
    by (simp add: createGroupFromSelection_def createGroupFromSelection_try_def sel f bb g
        del: filter_isValidNode.simps One_nat_def power_numeral)
  from bb have "fst (calculateBoundingBox ?s [Some 0, Some 1] far_nodes)
     = Some \<lparr>minX = Fin (2 ^ 53), minY = Fin 0, maxX = Fin (2 ^ 53), maxY = Fin 11\<rparr>"
    by (simp only: fst_conv)
  with v d c show ?thesis by (intro conjI)
qed

section \<open>The rejections of \<open>createGroupFromSelection\<close>\<close>

lemma calculateBoundingBox_world_valid:
  assumes "\<forall>n\<in>set vs. valid w n"
  shows "calculateBoundingBox s vs w = (fst (calculateBoundingBox s vs w), w)"
  by (simp add: calculateBoundingBox_all_valid [OF assms] Let_def)

lemma string_of_nat_1: "string_of_nat (Suc 0) = ''1''"
  by (simp add: string_of_nat.simps [of "Suc 0"])

text \<open>
  The \<^verbatim>\<open>try\<close> block after the checks of the view, the canvas and the selection, for a
  selection whose iteration gives nodes that can be read.
\<close>

lemma createGroupFromSelection_try_readable:
  assumes api: "createGroupNode canvas \<noteq> NotAFunction"
    and sel: "canvas_selection w = Some sel"
    and big: "\<not> size_of sel < 2"
    and arr: "Array_from sel = Inr nodes"
    and r: "\<forall>n\<in>set nodes. readable w n"
  shows "createGroupFromSelection_try s (Some (View (Some canvas))) w =
    (let validNodes = filter (valid w) nodes
     in if length validNodes = 0
        then (Inr (), showNotice s ''Selected items are not valid canvas nodes'' w)
        else if length validNodes < 2
        then (Inr (), showNotice s
                (''Only '' @ string_of_nat (length validNodes) @
                 '' valid node(s) selected. Need at least 2.'') w)
        else (case fst (calculateBoundingBox s validNodes w) of
                None \<Rightarrow> (Inr (), showNotice s ''Unable to calculate bounds for selected nodes'' w)
              | Some bounds \<Rightarrow> create_group s canvas validNodes bounds w))"
proof -
  have v: "\<forall>n\<in>set (filter (valid w) nodes). valid w n" by simp
  define res where "res = fst (calculateBoundingBox s (filter (valid w) nodes) w)"
  have c: "calculateBoundingBox s (filter (valid w) nodes) w = (res, w)"
    unfolding res_def by (rule calculateBoundingBox_world_valid [OF v])
  have f: "fst (calculateBoundingBox s (filter (valid w) nodes) w) = res"
    by (simp add: res_def)
  show ?thesis
    unfolding createGroupFromSelection_try_def Let_def f
    using api big
    by (simp add: sel arr filter_isValidNode_readable [OF r] c split: option.split)
qed

lemma createGroupFromSelection_ok:
  "createGroupFromSelection_try s cv w = (Inr (), w') \<Longrightarrow>
   createGroupFromSelection s cv w = (Inr (), w')"
  by (simp add: createGroupFromSelection_def)

lemma insufficient_selection:
  assumes "createGroupNode canvas \<noteq> NotAFunction" and "canvas_selection w = Some sel"
    and "size_of sel < 2"
  shows "createGroupFromSelection s (Some (View (Some canvas))) w =
     (Inr (), showNotice s ''Please select at least 2 items to create a group'' w)"
  using assms
  by (intro createGroupFromSelection_ok) (simp add: createGroupFromSelection_try_def)

text \<open>
  Claim C3. With a canvas that has the grouping method and a selection,
  \<open>createGroupFromSelection\<close> rejects a selection of size below \<open>2\<close> whatever the
  selected objects are, so before any of them is validated or measured; for a larger
  selection of readable nodes it rejects when no node or one node is valid, when the
  bounds cannot be computed, and when a dimension of the group is \<open>\<le> 0\<close>. Each time
  the whole effect is one call of \<open>showNotice\<close> with a reason of its own: no group is
  created and no save requested.
\<close>

theorem createGroupFromSelection_rejections:
  assumes api: "createGroupNode canvas \<noteq> NotAFunction"
    and sel: "canvas_selection w = Some sel"
  shows
   "(size_of sel < 2 \<longrightarrow>
       createGroupFromSelection s (Some (View (Some canvas))) w =
         (Inr (), showNotice s ''Please select at least 2 items to create a group'' w)) \<and>
    (\<forall>nodes. \<not> size_of sel < 2 \<and> Array_from sel = Inr nodes \<and> (\<forall>n\<in>set nodes. readable w n) \<longrightarrow>
       (length (filter (valid w) nodes) = 0 \<longrightarrow>
          createGroupFromSelection s (Some (View (Some canvas))) w =
            (Inr (), showNotice s ''Selected items are not valid canvas nodes'' w)) \<and>
       (length (filter (valid w) nodes) = 1 \<longrightarrow>
          createGroupFromSelection s (Some (View (Some canvas))) w =
            (Inr (), showNotice s ''Only 1 valid node(s) selected. Need at least 2.'' w)) \<and>
       (2 \<le> length (filter (valid w) nodes) \<and>
        fst (calculateBoundingBox s (filter (valid w) nodes) w) = None \<longrightarrow>
          createGroupFromSelection s (Some (View (Some canvas))) w =
            (Inr (), showNotice s ''Unable to calculate bounds for selected nodes'' w)) \<and>
       (\<forall>b. 2 \<le> length (filter (valid w) nodes) \<and>
            fst (calculateBoundingBox s (filter (valid w) nodes) w) = Some b \<and>
            (js_le (group_width b (padding s)) (Fin 0) \<or>
             js_le (group_height b (padding s)) (Fin 0)) \<longrightarrow>
          createGroupFromSelection s (Some (View (Some canvas))) w =
            (Inr (), showNotice s ''Invalid group dimensions calculated'' w))) \<and>
    distinct
      [''Please select at least 2 items to create a group'',
       ''Selected items are not valid canvas nodes'',
       ''Only 1 valid node(s) selected. Need at least 2.'',
       ''Unable to calculate bounds for selected nodes'',
       ''Invalid group dimensions calculated''] \<and>
    (\<forall>m. showNotice s m w = w\<lparr>trace := trace w @ (if showNotices s then [Notice m] else [])\<rparr>)"
proof (intro conjI allI impI)
  assume "size_of sel < 2"
  with api sel show "createGroupFromSelection s (Some (View (Some canvas))) w =
         (Inr (), showNotice s ''Please select at least 2 items to create a group'' w)"
    by (rule insufficient_selection)
next
  fix nodes
  assume a: "\<not> size_of sel < 2 \<and> Array_from sel = Inr nodes \<and> (\<forall>n\<in>set nodes. readable w n)"
  then have big: "\<not> size_of sel < 2" and arr: "Array_from sel = Inr nodes"
    and r: "\<forall>n\<in>set nodes. readable w n" by blast+
  note t = createGroupFromSelection_try_readable [OF api sel big arr r, of s, unfolded Let_def]
  {
    assume "length (filter (valid w) nodes) = 0"
    then show "createGroupFromSelection s (Some (View (Some canvas))) w =
            (Inr (), showNotice s ''Selected items are not valid canvas nodes'' w)"
      by (intro createGroupFromSelection_ok) (simp add: t)
  next
    assume one: "length (filter (valid w) nodes) = 1"
    then show "createGroupFromSelection s (Some (View (Some canvas))) w =
            (Inr (), showNotice s ''Only 1 valid node(s) selected. Need at least 2.'' w)"
      by (intro createGroupFromSelection_ok) (simp add: t string_of_nat_1)
  next
    assume "2 \<le> length (filter (valid w) nodes) \<and>
        fst (calculateBoundingBox s (filter (valid w) nodes) w) = None"
    then show "createGroupFromSelection s (Some (View (Some canvas))) w =
            (Inr (), showNotice s ''Unable to calculate bounds for selected nodes'' w)"
      by (intro createGroupFromSelection_ok) (auto simp: t)
  next
    fix b
    assume b: "2 \<le> length (filter (valid w) nodes) \<and>
            fst (calculateBoundingBox s (filter (valid w) nodes) w) = Some b \<and>
            (js_le (group_width b (padding s)) (Fin 0) \<or>
             js_le (group_height b (padding s)) (Fin 0))"
    then have "js_le (group_width b (padding s)) (Fin 0) \<or>
             js_le (group_height b (padding s)) (Fin 0)" by blast
    note g = create_group_reject [OF this, of canvas "filter (valid w) nodes" w]
    from b show "createGroupFromSelection s (Some (View (Some canvas))) w =
            (Inr (), showNotice s ''Invalid group dimensions calculated'' w)"
      by (intro createGroupFromSelection_ok) (auto simp: t g)
  }
next
  show "distinct
      [''Please select at least 2 items to create a group'',
       ''Selected items are not valid canvas nodes'',
       ''Only 1 valid node(s) selected. Need at least 2.'',
       ''Unable to calculate bounds for selected nodes'',
       ''Invalid group dimensions calculated'']"
    by simp
next
  fix m
  show "showNotice s m w = w\<lparr>trace := trace w @ (if showNotices s then [Notice m] else [])\<rparr>"
    by (simp add: showNotice_def emit_def)
qed

text \<open>
  The theorem at a selection of one object whose reads throw, which is rejected for its
  size without being read, and at a selection of a valid node and a node of width zero.
\<close>

theorem createGroupFromSelection_rejections_witness:
  "createGroupNode \<lparr>createGroupNode = Returns, requestSave = Returns\<rparr> \<noteq> NotAFunction \<and>
   canvas_selection one_throwing = Some (SetOf [Some 0]) \<and>
   size_of (SetOf [Some 0]) < 2 \<and>
   createGroupFromSelection DEFAULT_SETTINGS
      (Some (View (Some \<lparr>createGroupNode = Returns, requestSave = Returns\<rparr>))) one_throwing
     = (Inr (),
        one_throwing\<lparr>trace := [Notice ''Please select at least 2 items to create a group'']\<rparr>) \<and>
   canvas_selection one_valid_one_flat = Some (SetOf [Some 0, Some 1]) \<and>
   filter (valid one_valid_one_flat) [Some 0, Some 1] = [Some 0] \<and>
   createGroupFromSelection DEFAULT_SETTINGS
      (Some (View (Some \<lparr>createGroupNode = Returns, requestSave = Returns\<rparr>))) one_valid_one_flat
     = (Inr (),
        one_valid_one_flat
          \<lparr>trace := [Notice ''Only 1 valid node(s) selected. Need at least 2.'']\<rparr>)"
proof -
  let ?c = "\<lparr>createGroupNode = Returns, requestSave = Returns\<rparr>"
  have api: "createGroupNode ?c \<noteq> NotAFunction" by simp
  have sel1: "canvas_selection one_throwing = Some (SetOf [Some 0])"
    by (simp add: one_throwing_def world_with_def)
  have tr1: "trace one_throwing = []" by (simp add: one_throwing_def world_with_def)
  have small: "size_of (SetOf [Some (0::nat)]) < 2" by simp
  note t1 = createGroupFromSelection_rejections [OF api sel1, of DEFAULT_SETTINGS]
  from conjunct1 [OF t1, rule_format, OF small]
  have r1: "createGroupFromSelection DEFAULT_SETTINGS (Some (View (Some ?c))) one_throwing
     = (Inr (),
        one_throwing\<lparr>trace := [Notice ''Please select at least 2 items to create a group'']\<rparr>)"
    by (simp add: showNotice_def emit_def DEFAULT_SETTINGS_def tr1)
  have sel2: "canvas_selection one_valid_one_flat = Some (SetOf [Some 0, Some 1])"
    by (simp add: one_valid_one_flat_def world_with_def)
  have tr2: "trace one_valid_one_flat = []" by (simp add: one_valid_one_flat_def world_with_def)
  have p: "props_of one_valid_one_flat (Some 0) = number_node (Fin 0) (Fin 0) (Fin 50) (Fin 50)"
    "props_of one_valid_one_flat (Some 1) = number_node (Fin 100) (Fin 0) (Fin 0) (Fin 50)"
    by (simp_all add: props_of_def get_properties_def one_valid_one_flat_def world_with_def)
  have v: "valid one_valid_one_flat (Some 0)" "\<not> valid one_valid_one_flat (Some 1)"
    unfolding valid_iff p by (simp_all add: number_node_def)
  then have fv: "filter (valid one_valid_one_flat) [Some 0, Some 1] = [Some 0]"
    by (simp del: One_nat_def)
  have rd: "\<forall>n\<in>set [Some 0, Some 1]. readable one_valid_one_flat n"
    by (simp add: readable_def get_properties_def one_valid_one_flat_def world_with_def)
  have pre: "\<not> size_of (SetOf [Some 0, Some (1::nat)]) < 2 \<and>
     Array_from (SetOf [Some 0, Some 1]) = Inr [Some 0, Some 1] \<and>
     (\<forall>n\<in>set [Some 0, Some 1]. readable one_valid_one_flat n)"
    using rd by (simp del: One_nat_def)
  have one: "length (filter (valid one_valid_one_flat) [Some 0, Some 1]) = 1"
    by (simp only: fv) simp
  note t2 = createGroupFromSelection_rejections [OF api sel2, of DEFAULT_SETTINGS]
  note t2' = conjunct1 [OF conjunct2 [OF t2], rule_format, OF pre]
  from conjunct1 [OF conjunct2 [OF t2'], rule_format, OF one]
  have r2: "createGroupFromSelection DEFAULT_SETTINGS (Some (View (Some ?c))) one_valid_one_flat
     = (Inr (),
        one_valid_one_flat
          \<lparr>trace := [Notice ''Only 1 valid node(s) selected. Need at least 2.'']\<rparr>)"
    by (simp add: showNotice_def emit_def DEFAULT_SETTINGS_def tr2)
  from api sel1 small r1 sel2 fv r2 show ?thesis by (intro conjI)
qed

section \<open>The selection and the nodes are left alone\<close>

lemma same_store_refl [simp]: "same_store w w"
  by (simp add: same_store_def)

lemma same_store_trans: "same_store w w' \<Longrightarrow> same_store w' w'' \<Longrightarrow> same_store w w''"
  by (simp add: same_store_def)

lemma same_store_emit [simp]: "same_store w (emit ev w') = same_store w w'"
  by (simp add: same_store_def emit_def)

lemma same_store_showNotice [simp]: "same_store w (showNotice s m w') = same_store w w'"
  by (simp add: showNotice_def)

lemma same_store_log_debug [simp]: "same_store w (log_debug s m data w') = same_store w w'"
  by (simp add: log_debug_def)

lemma same_store_handleError [simp]:
  "same_store w (snd (handleError s context error w')) = same_store w w'"
  by (simp add: handleError_def Let_def)

lemma calculateBoundingBox_try_world [simp]: "snd (calculateBoundingBox_try nodes w) = w"
proof -
  obtain r where f: "filter_isValidNode nodes w = (r, w)"
    using filter_isValidNode_world [of nodes w] by (cases "filter_isValidNode nodes w") simp
  show ?thesis
    unfolding calculateBoundingBox_try_def f
    by (simp add: Let_def split: sum.split)
qed

lemma same_store_calculateBoundingBox [simp]:
  "same_store w (snd (calculateBoundingBox s nodes w))"
proof -
  obtain r where t: "calculateBoundingBox_try nodes w = (r, w)"
    using calculateBoundingBox_try_world [of nodes w]
    by (cases "calculateBoundingBox_try nodes w") simp
  show ?thesis
    unfolding calculateBoundingBox_def t by (simp split: sum.split)
qed

lemma same_store_create_group:
  "same_store w (snd (create_group s canvas validNodes b w')) = same_store w w'"
  by (simp add: create_group_def Let_def split: host_fn.split)

lemma same_store_try:
  "same_store w (snd (createGroupFromSelection_try s canvasView w))"
proof -
  have f: "\<exists>r. filter_isValidNode nodes w = (r, w)" for nodes
    using filter_isValidNode_world [of nodes w] by (metis prod.collapse)
  have c: "\<exists>r w2. calculateBoundingBox s vs w = (r, w2) \<and> same_store w w2" for vs
    using same_store_calculateBoundingBox [of w s vs] by (metis prod.collapse)
  show ?thesis
  proof (cases canvasView)
    case None
    then show ?thesis by (simp add: createGroupFromSelection_try_def)
  next
    case (Some view)
    then obtain cv where view: "canvasView = Some (View cv)" by (cases view) simp
    show ?thesis
    proof (cases cv)
      case None
      with view show ?thesis by (simp add: createGroupFromSelection_try_def)
    next
      case (Some canvas)
      show ?thesis
      proof (cases "canvas_selection w")
        case None
        with view Some show ?thesis by (simp add: createGroupFromSelection_try_def)
      next
        case sel: (Some selection)
        show ?thesis
        proof (cases "Array_from selection")
          case (Inl e)
          with view Some sel show ?thesis by (simp add: createGroupFromSelection_try_def)
        next
          case (Inr nodes)
          from f obtain r where fr: "filter_isValidNode nodes w = (r, w)" by blast
          show ?thesis
          proof (cases r)
            case (Inl e)
            with view Some sel Inr fr show ?thesis
              by (simp add: createGroupFromSelection_try_def)
          next
            case vs: (Inr validNodes)
            from c obtain res w2 where
              cb: "calculateBoundingBox s validNodes w = (res, w2)" and w2: "same_store w w2"
              by blast
            with view Some sel Inr fr vs show ?thesis
              by (simp add: createGroupFromSelection_try_def same_store_create_group
                  split: option.split)
          qed
        qed
      qed
    qed
  qed
qed

lemma same_store_createGroupFromSelection:
  "same_store w (snd (createGroupFromSelection s canvasView w))"
proof -
  obtain r w' where t: "createGroupFromSelection_try s canvasView w = (r, w')"
    and w': "same_store w w'"
    using same_store_try [of w s canvasView] by (metis prod.collapse)
  show ?thesis
    unfolding createGroupFromSelection_def t using w' by (simp split: sum.split)
qed

text \<open>
  Claim C9. \<open>isValidNode\<close> leaves the world as it is, and \<open>calculateBoundingBox\<close> and
  \<open>createGroupFromSelection\<close> leave the objects (so every node and its \<open>x\<close>, \<open>y\<close>,
  \<open>width\<close> and \<open>height\<close>) and the selection as they are: all they add is events.
  What the host does inside \<^verbatim>\<open>createGroupNode\<close> and \<^verbatim>\<open>requestSave\<close> is not code of
  the plugin and is an event here.
\<close>

theorem input_not_mutated:
  "snd (isValidNode node w) = w \<and>
   same_store w (snd (calculateBoundingBox s nodes w)) \<and>
   same_store w (snd (createGroupFromSelection s canvasView w))"
  by (simp add: same_store_createGroupFromSelection)

text \<open>
  The theorem at the end-to-end example, where the group is created: the events change,
  the objects and the selection do not.
\<close>

theorem input_not_mutated_witness:
  "same_store three_nodes
     (snd (createGroupFromSelection DEFAULT_SETTINGS
        (Some (View (Some \<lparr>createGroupNode = Returns, requestSave = Returns\<rparr>))) three_nodes)) \<and>
   trace (snd (createGroupFromSelection (DEFAULT_SETTINGS\<lparr>padding := Fin 10\<rparr>)
        (Some (View (Some \<lparr>createGroupNode = Returns, requestSave = Returns\<rparr>))) three_nodes))
     \<noteq> trace three_nodes"
proof -
  have sel: "canvas_selection three_nodes = Some (SetOf [Some 0, Some 1, Some 2])"
    by (simp add: three_nodes_def world_with_def)
  have tr: "trace three_nodes = []"
    by (simp add: three_nodes_def world_with_def)
  have f: "filter_isValidNode [Some 0, Some 1, Some 2] three_nodes
      = (Inr [Some 0, Some 1, Some 2], three_nodes)"
    unfolding filter_isValidNode_readable [OF three_nodes_readable] three_nodes_valid ..
  have "trace (snd (createGroupFromSelection (DEFAULT_SETTINGS\<lparr>padding := Fin 10\<rparr>)
        (Some (View (Some \<lparr>createGroupNode = Returns, requestSave = Returns\<rparr>))) three_nodes))
     \<noteq> trace three_nodes"
    by (simp add: createGroupFromSelection_def createGroupFromSelection_try_def sel f
        three_nodes_bounds create_group_def group_width_def group_height_def Let_def emit_def
        showNotice_def log_debug_def DEFAULT_SETTINGS_def tr
        del: filter_isValidNode.simps One_nat_def)
  with input_not_mutated [of None three_nodes DEFAULT_SETTINGS "[]"
      "Some (View (Some \<lparr>createGroupNode = Returns, requestSave = Returns\<rparr>))"]
  show ?thesis by blast
qed

section \<open>Faults\<close>

lemma handleError_returns:
  "error \<noteq> NullishValue \<Longrightarrow> fst (handleError s context error w) = Inr ()"
  by (simp add: handleError_def Let_def)

lemma handleError_raises: "fst (handleError s context error w) = Inl e \<Longrightarrow> e = TypeError"
  by (simp add: handleError_def Let_def split: if_splits)

text \<open>What \<open>createGroupFromSelection\<close> can raise comes from \<open>handleError\<close>.\<close>

lemma createGroupFromSelection_raises:
  assumes "fst (createGroupFromSelection s canvasView w) = Inl e"
  shows "e = TypeError"
proof (cases "createGroupFromSelection_try s canvasView w")
  case (Pair r w')
  with assms show ?thesis
    by (cases r) (auto simp: createGroupFromSelection_def dest: handleError_raises)
qed

text \<open>A fault that is not \<^verbatim>\<open>null\<close> or \<^verbatim>\<open>undefined\<close> is caught and reported.\<close>

lemma createGroupFromSelection_returns:
  assumes "fst (createGroupFromSelection_try s canvasView w) \<noteq> Inl NullishValue"
  shows "fst (createGroupFromSelection s canvasView w) = Inr ()"
proof (cases "createGroupFromSelection_try s canvasView w")
  case (Pair r w')
  with assms show ?thesis
    by (cases r) (auto simp: createGroupFromSelection_def handleError_returns)
qed

text \<open>The command callback returns for every input.\<close>

lemma checkCallback_returns: "\<exists>b. fst (checkCallback s a checking w) = Inr b"
proof -
  obtain canvasView w1 where g: "getActiveCanvasView s a w = (canvasView, w1)"
    by (cases "getActiveCanvasView s a w")
  obtain r w2 where c: "createGroupFromSelection s canvasView w1 = (r, w2)"
    by (cases "createGroupFromSelection s canvasView w1")
  show ?thesis
  proof (cases r)
    case (Inr u)
    with g c show ?thesis by (auto simp: checkCallback_def)
  next
    case (Inl e)
    with c have "e = TypeError" using createGroupFromSelection_raises [of s canvasView w1 e] by simp
    then have "e \<noteq> NullishValue" by (simp add: TypeError_def)
    then obtain w3 where "handleError s ''Command execution failed'' e w2 = (Inr (), w3)"
      using handleError_returns [of e s "''Command execution failed''" w2]
      by (cases "handleError s ''Command execution failed'' e w2") simp
    with g c Inl show ?thesis by (auto simp: checkCallback_def)
  qed
qed

text \<open>
  Claim C8 at a canvas whose \<^verbatim>\<open>createGroupNode\<close> throws \<^verbatim>\<open>undefined\<close>, for the three
  selected nodes of the end-to-end example. The \<^verbatim>\<open>catch\<close> of
  \<open>createGroupFromSelection\<close> calls \<open>handleError\<close>, which throws a \<^verbatim>\<open>TypeError\<close> on
  reading the message of \<^verbatim>\<open>undefined\<close>: \<open>createGroupFromSelection\<close> raises and reports
  nothing. The command callback catches that \<^verbatim>\<open>TypeError\<close>, reports it and returns
  \<^verbatim>\<open>false\<close>.
\<close>

theorem createGroupFromSelection_raises_on_undefined:
  "createGroupFromSelection DEFAULT_SETTINGS
      (Some (View (Some \<lparr>createGroupNode = Throws NullishValue, requestSave = Returns\<rparr>)))
      three_nodes
     = (Inl TypeError, three_nodes) \<and>
   checkCallback DEFAULT_SETTINGS
      \<lparr>getLeavesOfType = Inr (Some
         [Some (View (Some \<lparr>createGroupNode = Throws NullishValue, requestSave = Returns\<rparr>))])\<rparr>
      False three_nodes
     = (Inr False,
        three_nodes\<lparr>trace :=
          [ConsoleError
             ''[Canvas Hotkey Helper] Command execution failed: Cannot read properties of undefined''
             TypeError,
           Notice ''Command execution failed: Cannot read properties of undefined'']\<rparr>)"
proof -
  let ?c = "\<lparr>createGroupNode = Throws NullishValue, requestSave = Returns\<rparr>"
  have sel: "canvas_selection three_nodes = Some (SetOf [Some 0, Some 1, Some 2])"
    by (simp add: three_nodes_def world_with_def)
  have tr: "trace three_nodes = []"
    by (simp add: three_nodes_def world_with_def)
  have f: "filter_isValidNode [Some 0, Some 1, Some 2] three_nodes
      = (Inr [Some 0, Some 1, Some 2], three_nodes)"
    unfolding filter_isValidNode_readable [OF three_nodes_readable] three_nodes_valid ..
  have c: "createGroupFromSelection DEFAULT_SETTINGS (Some (View (Some ?c))) three_nodes
     = (Inl TypeError, three_nodes)"
    by (simp add: createGroupFromSelection_def createGroupFromSelection_try_def sel f
        three_nodes_bounds create_group_def group_width_def group_height_def Let_def
        handleError_def DEFAULT_SETTINGS_def
        del: filter_isValidNode.simps One_nat_def)
  have "checkCallback DEFAULT_SETTINGS
      \<lparr>getLeavesOfType = Inr (Some [Some (View (Some ?c))])\<rparr> False three_nodes
     = (Inr False,
        three_nodes\<lparr>trace :=
          [ConsoleError
             ''[Canvas Hotkey Helper] Command execution failed: Cannot read properties of undefined''
             TypeError,
           Notice ''Command execution failed: Cannot read properties of undefined'']\<rparr>)"
    by (simp add: checkCallback_def getActiveCanvasView_def c,
        simp add: handleError_def TypeError_def showNotice_def emit_def DEFAULT_SETTINGS_def tr
          Let_def)
  with c show ?thesis by (intro conjI)
qed

end
